theory Spec2Isabelle
  imports Main "HOL-Library.Word" "HOL-Library.Signed_Division"
begin

unbundle bit_operations_syntax

section \<open>Data model of usb.c\<close>

type_synonym u8 = "8 word"
type_synonym u16 = "16 word"
type_synonym u32 = "32 word"
type_synonym u64 = "64 word"

text \<open>
  The descriptors libusb hands out. An array with its element count is a list:
  \<open>bNumInterfaces\<close> is the length of \<open>cfg_interface\<close>, \<open>bNumEndpoints\<close> the length of
  \<open>endpoint\<close>. Of every interface only \<open>altsetting[0]\<close> is read by usb.c, so an
  interface is represented by that descriptor.
\<close>

record libusb_device_descriptor =
  idVendor :: u16
  idProduct :: u16
  iSerialNumber :: u8
  bNumConfigurations :: u8

record libusb_interface_descriptor =
  bInterfaceNumber :: u8
  bInterfaceClass :: u8
  bInterfaceSubClass :: u8
  bInterfaceProtocol :: u8
  endpoint :: "u8 list"  \<comment> \<open>\<open>bEndpointAddress\<close> of each endpoint\<close>

record libusb_config_descriptor =
  bConfigurationValue :: u8
  cfg_interface :: "libusb_interface_descriptor list"

text \<open>Transfers. \<open>xfer_id\<close> stands for the pointer returned by \<open>libusb_alloc_transfer\<close>.\<close>

datatype transfer_cb =
  Tx_callback | Rx_callback | Get_mode_cb | Switch_mode_cb
  | Get_langid_callback | Get_serial_callback

datatype transfer_status =
  LIBUSB_TRANSFER_COMPLETED | LIBUSB_TRANSFER_ERROR | LIBUSB_TRANSFER_TIMED_OUT
  | LIBUSB_TRANSFER_CANCELLED | LIBUSB_TRANSFER_STALL | LIBUSB_TRANSFER_NO_DEVICE
  | LIBUSB_TRANSFER_OVERFLOW

datatype xfer_buffer =
  Caller_buffer "u8 list"  \<comment> \<open>the caller's bytes, passed by pointer\<close>
  | Malloc_buffer nat      \<comment> \<open>a fresh block of the given size\<close>
  | Null_buffer            \<comment> \<open>\<open>NULL\<close>, what a failed \<open>malloc\<close> returns\<close>

record control_setup =
  bmRequestType :: u8
  bRequest :: u8
  wValue :: u16
  wIndex :: u16
  wLength :: u16

datatype xfer_kind = Bulk u8 | Control control_setup

record libusb_transfer =
  xfer_id :: nat
  xfer_handle :: "nat option"
  xfer_kind :: xfer_kind
  xfer_buffer :: xfer_buffer
  xfer_length :: int
  xfer_callback :: transfer_cb
  xfer_timeout :: nat

text \<open>\<open>struct usb_device\<close>. A null \<open>handle\<close> is \<open>None\<close>; \<open>serial\<close> is the 256-byte array.\<close>

record usb_device =
  handle :: "nat option"
  bus :: u8
  address :: u8
  serial :: "u8 list"
  alive :: int
  interface :: u8
  ep_in :: u8
  ep_out :: u8
  rx_xfers :: "libusb_transfer list"
  tx_xfers :: "libusb_transfer list"
  wMaxPacketSize :: int
  speed :: u64
  devdesc :: libusb_device_descriptor

section \<open>The library's side\<close>

text \<open>
  libusb and the C library are the environment. The state holds the allocator's next
  pointer, the results the coming calls of \<open>libusb_submit_transfer\<close> will return (0 once
  the list is used up), the transfers libusb accepted, in submission order, the transfers
  released with \<open>libusb_free_transfer\<close>, and the calls made on device handles. The two
  flags say whether \<open>libusb_alloc_transfer\<close> and \<open>malloc\<close>/\<open>calloc\<close> return \<open>NULL\<close>.
  Where the source uses an allocation without testing it, a \<open>NULL\<close> is dereferenced: the
  C program has no defined behaviour there, and the model's result is \<open>None\<close>.
\<close>

datatype libusb_call =
  Get_configuration
  | Kernel_driver_active u8
  | Detach_kernel_driver u8
  | Set_configuration int
  | Claim_interface u8

record libusb =
  next_xfer :: nat
  submit_results :: "int list"
  submitted :: "libusb_transfer list"
  freed :: "libusb_transfer list"
  calls :: "libusb_call list"
  alloc_transfer_null :: bool
  malloc_null :: bool

definition libusb_alloc_transfer :: "libusb \<Rightarrow> nat option \<times> libusb" where
  "libusb_alloc_transfer l =
     (if alloc_transfer_null l then (None, l)
      else (Some (next_xfer l), l\<lparr>next_xfer := Suc (next_xfer l)\<rparr>))"

definition malloc :: "libusb \<Rightarrow> nat \<Rightarrow> xfer_buffer" where
  "malloc l n = (if malloc_null l then Null_buffer else Malloc_buffer n)"

text \<open>A transfer is in flight exactly when the submission returned 0.\<close>

definition libusb_submit_transfer :: "libusb_transfer \<Rightarrow> libusb \<Rightarrow> int \<times> libusb" where
  "libusb_submit_transfer x l =
     (case submit_results l of
        [] \<Rightarrow> (0, l\<lparr>submitted := submitted l @ [x]\<rparr>)
      | r # rs \<Rightarrow>
          (r, l\<lparr>submit_results := rs,
                submitted := (if r = 0 then submitted l @ [x] else submitted l)\<rparr>))"

definition libusb_free_transfer :: "libusb_transfer \<Rightarrow> libusb \<Rightarrow> libusb" where
  "libusb_free_transfer x l = l\<lparr>freed := freed l @ [x]\<rparr>"

definition libusb_fill_bulk_transfer ::
  "nat \<Rightarrow> nat option \<Rightarrow> u8 \<Rightarrow> xfer_buffer \<Rightarrow> int \<Rightarrow> transfer_cb \<Rightarrow> nat \<Rightarrow> libusb_transfer" where
  "libusb_fill_bulk_transfer p h ep b len cb t =
     \<lparr>xfer_id = p, xfer_handle = h, xfer_kind = Bulk ep, xfer_buffer = b,
      xfer_length = len, xfer_callback = cb, xfer_timeout = t\<rparr>"

section \<open>usb\_send\<close>

text \<open>
  \<open>usb_send\<close> returns its \<open>int\<close> result with the updated device and library state.
  \<open>length % dev->wMaxPacketSize\<close> is C's truncating remainder; with a divisor of 0 the
  C program has no defined behaviour, which is the result \<open>None\<close>, as is filling a
  transfer that could not be allocated. The buffer of the zero-length packet is never
  read, so a \<open>NULL\<close> from \<open>malloc(1)\<close> is passed on as it is.
\<close>

definition usb_send ::
  "usb_device \<Rightarrow> u8 list \<Rightarrow> int \<Rightarrow> libusb \<Rightarrow> (int \<times> usb_device \<times> libusb) option" where
  "usb_send dev buf len l =
     (case libusb_alloc_transfer l of
        (None, l1) \<Rightarrow> None
      | (Some p, l1) \<Rightarrow>
          let xfer = libusb_fill_bulk_transfer p (handle dev) (ep_out dev) (Caller_buffer buf) len
                       Tx_callback 0;
              (res, l2) = libusb_submit_transfer xfer l1
          in if res < 0 then Some (res, dev, libusb_free_transfer xfer l2)
             else
               let dev1 = dev\<lparr>tx_xfers := tx_xfers dev @ [xfer]\<rparr>
               in if wMaxPacketSize dev1 = 0 then None
                  else if len smod wMaxPacketSize dev1 = 0 then
                    (case libusb_alloc_transfer l2 of
                       (None, l3) \<Rightarrow> None
                     | (Some p2, l3) \<Rightarrow>
                         let buffer = malloc l3 1;
                             zlp = libusb_fill_bulk_transfer p2 (handle dev1) (ep_out dev1)
                                     buffer 0 Tx_callback 0;
                             (res2, l4) = libusb_submit_transfer zlp l3
                         in if res2 < 0 then Some (res2, dev1, libusb_free_transfer zlp l4)
                            else Some (0, dev1\<lparr>tx_xfers := tx_xfers dev1 @ [zlp]\<rparr>, l4))
                  else Some (0, dev1, l2))"

section \<open>Accessors\<close>

text \<open>
  \<open>usb_get_serial\<close> returns a pointer: \<open>None\<close> is \<open>NULL\<close>, otherwise the array.
  In \<open>usb_get_location\<close> both bytes are promoted to \<open>int\<close>, shifted and combined
  there, and the result is converted to \<open>uint32_t\<close>.
\<close>

definition usb_get_serial :: "usb_device \<Rightarrow> u8 list option" where
  "usb_get_serial dev = (if handle dev = None then None else Some (serial dev))"

definition usb_get_location :: "usb_device \<Rightarrow> u32" where
  "usb_get_location dev =
     (if handle dev = None then 0
      else word_of_int (push_bit 16 (uint (bus dev)) OR uint (address dev)))"

definition usb_get_pid :: "usb_device \<Rightarrow> u16" where
  "usb_get_pid dev = (if handle dev = None then 0 else idProduct (devdesc dev))"

definition usb_get_speed :: "usb_device \<Rightarrow> u64" where
  "usb_get_speed dev = (if handle dev = None then 0 else speed dev)"

section \<open>get\_serial\_callback: the serial string\<close>

text \<open>
  \<open>data\<close> is the data region of the control transfer (\<open>unsigned char *\<close>), \<open>ser\<close> the
  array \<open>usbdev->serial\<close>. The loop keeps the source's two counters: \<open>si\<close> walks the
  descriptor in steps of 2 from offset 2 while it is below the length byte \<open>data[0]\<close>,
  \<open>di\<close> is the write position and stays below \<open>sizeof(usbdev->serial) - 1 = 255\<close>.
  The loop reads no offset beyond \<open>data[0]\<close>, which lies inside the region of
  \<open>1024 + LIBUSB_CONTROL_SETUP_SIZE\<close> bytes; the properties are stated for a \<open>data\<close> that
  holds these offsets and a \<open>ser\<close> of 256 bytes.
\<close>

function deunicode_loop :: "u8 list \<Rightarrow> u8 list \<Rightarrow> nat \<Rightarrow> nat \<Rightarrow> u8 list \<times> nat" where
  "deunicode_loop data ser di si =
     (if si < unat (data ! 0) \<and> di < 256 - 1 then
        if data ! si AND 0x80 \<noteq> 0 \<or> data ! (si + 1) \<noteq> 0 then
          deunicode_loop data (ser[di := 0x3F]) (di + 1) (si + 2)
        else if data ! si = 0 then (ser, di)
        else deunicode_loop data (ser[di := data ! si]) (di + 1) (si + 2)
      else (ser, di))"
  by pat_completeness auto
termination
  by (relation "measure (\<lambda>(data, ser, di, si). unat (data ! 0) - si)") auto

declare deunicode_loop.simps [simp del]

definition deunicode :: "u8 list \<Rightarrow> u8 list \<Rightarrow> u8 list \<times> nat" where
  "deunicode data ser = (let (ser1, di) = deunicode_loop data ser 0 2 in (ser1[di := 0], di))"

text \<open>\<open>memmove(buf + dst, buf + src, n)\<close> inside one array, both ranges in bounds.\<close>

definition memmove :: "u8 list \<Rightarrow> nat \<Rightarrow> nat \<Rightarrow> nat \<Rightarrow> u8 list" where
  "memmove buf dst src n = take dst buf @ take n (drop src buf) @ drop (dst + n) buf"

definition udid_hyphen :: "u8 list \<Rightarrow> nat \<Rightarrow> u8 list" where
  "udid_hyphen ser di =
     (if di = 24 then ((memmove ser 9 8 16)[8 := 0x2D])[di + 1 := 0] else ser)"

text \<open>
  The part of \<open>get_serial_callback\<close> that writes \<open>usbdev->serial\<close>: everything up to the
  call of \<open>device_add\<close>. A transfer that did not complete leaves the device as it was.
\<close>

definition get_serial_callback_serial ::
  "transfer_status \<Rightarrow> u8 list \<Rightarrow> usb_device \<Rightarrow> usb_device" where
  "get_serial_callback_serial status data usbdev =
     (if status \<noteq> LIBUSB_TRANSFER_COMPLETED then usbdev
      else let (ser1, di) = deunicode data (serial usbdev)
           in usbdev\<lparr>serial := udid_hyphen ser1 di\<rparr>)"

text \<open>The string a \<open>char\<close> array holds: the bytes before the first NUL.\<close>

definition c_str :: "u8 list \<Rightarrow> u8 list" where
  "c_str buf = takeWhile (\<lambda>c. c \<noteq> 0) buf"

text \<open>
  The decoding as the specification words it, to compare the loop with: the 2-byte units
  after the header (low byte first), up to the first NUL unit, each mapped to its low
  byte when it is ASCII and to \<open>?\<close> otherwise, at most 255 characters. A unit belongs to
  the descriptor when its first byte lies before the length \<open>data[0]\<close>.
\<close>

definition descriptor_units :: "u8 list \<Rightarrow> (u8 \<times> u8) list" where
  "descriptor_units data =
     map (\<lambda>k. (data ! (2 + 2 * k), data ! (2 + 2 * k + 1))) [0 ..< (unat (data ! 0) - 1) div 2]"

definition nul_unit :: "u8 \<times> u8 \<Rightarrow> bool" where
  "nul_unit u = (fst u = 0 \<and> snd u = 0)"

definition ascii_unit :: "u8 \<times> u8 \<Rightarrow> bool" where
  "ascii_unit u = (snd u = 0 \<and> fst u AND 0x80 = 0)"

definition unit_char :: "u8 \<times> u8 \<Rightarrow> u8" where
  "unit_char u = (if ascii_unit u then fst u else 0x3F)"

definition decode_units :: "(u8 \<times> u8) list \<Rightarrow> u8 list" where
  "decode_units us = map unit_char (takeWhile (\<lambda>u. \<not> nul_unit u) us)"

definition serial_decoding :: "u8 list \<Rightarrow> u8 list" where
  "serial_decoding data = take 255 (decode_units (descriptor_units data))"

section \<open>The constants of usb.h and the devices libusb reports\<close>

text \<open>
  usb.h is not among the sources, so its macros are parameters of the model. They are
  \<open>int\<close> constants in C; a byte compared with one of them is promoted first.
\<close>

record usb_h =
  INTERFACE_CLASS :: int
  INTERFACE_SUBCLASS :: int
  INTERFACE_PROTOCOL :: int
  VID_APPLE :: int
  PID_APPLE_T2_COPROCESSOR :: int
  PID_APPLE_SILICON_RESTORE_LOW :: int
  PID_APPLE_SILICON_RESTORE_MAX :: int
  PID_RANGE_LOW :: int
  PID_RANGE_MAX :: int
  APPLE_VEND_SPECIFIC_GET_MODE :: int
  APPLE_VEND_SPECIFIC_SET_MODE :: int

datatype libusb_speed =
  LIBUSB_SPEED_UNKNOWN | LIBUSB_SPEED_LOW | LIBUSB_SPEED_FULL | LIBUSB_SPEED_HIGH
  | LIBUSB_SPEED_SUPER | LIBUSB_SPEED_SUPER_PLUS

text \<open>
  A \<open>libusb_device\<close> is opaque to usb.c; the record holds what the library answers for it
  and for the handle opened on it. Each field is named after the libusb function it
  answers. \<open>get_device_descriptor\<close> and \<open>get_configuration\<close> give the return code with the
  value written through the pointer; \<open>get_config_descriptor_by_value\<close> and \<open>open_device\<close>
  are \<open>None\<close> when the call returns an error.
\<close>

record libusb_device =
  get_bus_number :: u8
  get_device_address :: u8
  get_device_descriptor :: "int \<times> libusb_device_descriptor"
  get_config_descriptor_by_value :: "u8 \<Rightarrow> libusb_config_descriptor option"
  open_device :: "nat option"
  get_max_packet_size :: "u8 \<Rightarrow> int"
  get_device_speed :: libusb_speed
  get_configuration :: "int \<times> int"
  kernel_driver_active :: "u8 \<Rightarrow> int"
  detach_kernel_driver :: "u8 \<Rightarrow> int"
  set_configuration :: "int \<Rightarrow> int"
  claim_interface :: "u8 \<Rightarrow> int"

record mode_context =
  ctx_dev :: libusb_device
  ctx_bus :: u8
  ctx_address :: u8
  ctx_bRequest :: u8
  ctx_wValue :: u16
  ctx_wIndex :: u16
  ctx_wLength :: u16
  ctx_timeout :: nat

text \<open>
  What the callbacks can reach: the static \<open>device_list\<close> and the library. The collection
  is a list in insertion order, and a pointer to one of its devices is its index.
\<close>

record usb_core =
  device_list :: "usb_device list"
  lib :: libusb

definition LIBUSB_ENDPOINT_IN :: u8 where "LIBUSB_ENDPOINT_IN = 0x80"
definition LIBUSB_ENDPOINT_OUT :: u8 where "LIBUSB_ENDPOINT_OUT = 0x00"
definition LIBUSB_REQUEST_TYPE_VENDOR :: u8 where "LIBUSB_REQUEST_TYPE_VENDOR = 0x40"
definition LIBUSB_RECIPIENT_DEVICE :: u8 where "LIBUSB_RECIPIENT_DEVICE = 0x00"
definition LIBUSB_REQUEST_GET_DESCRIPTOR :: u8 where "LIBUSB_REQUEST_GET_DESCRIPTOR = 0x06"
definition LIBUSB_DT_STRING :: u16 where "LIBUSB_DT_STRING = 0x03"
definition LIBUSB_CONTROL_SETUP_SIZE :: nat where "LIBUSB_CONTROL_SETUP_SIZE = 8"

definition log_call :: "libusb_call \<Rightarrow> libusb \<Rightarrow> libusb" where
  "log_call x l = l\<lparr>calls := calls l @ [x]\<rparr>"

section \<open>find\_device and guess\_mode\<close>

primrec find_device :: "int \<Rightarrow> int \<Rightarrow> usb_device list \<Rightarrow> nat option" where
  "find_device b a [] = None"
| "find_device b a (d # ds) =
     (if uint (bus d) = b \<and> uint (address d) = a then Some 0
      else map_option Suc (find_device b a ds))"

text \<open>
  One round of the interface loop of \<open>guess_mode\<close>, on the three flags
  \<open>(has_valeria, has_cdc_ncm, has_usbmux)\<close>.
\<close>

definition guess_mode_flags ::
  "usb_h \<Rightarrow> bool \<times> bool \<times> bool \<Rightarrow> libusb_interface_descriptor \<Rightarrow> bool \<times> bool \<times> bool" where
  "guess_mode_flags h flags intf =
     (case flags of (has_valeria, has_cdc_ncm, has_usbmux) \<Rightarrow>
        (if uint (bInterfaceClass intf) = INTERFACE_CLASS h \<and> bInterfaceSubClass intf = 42
            \<and> bInterfaceProtocol intf = 255 then True else has_valeria,
         if bInterfaceClass intf = 2 \<and> bInterfaceSubClass intf = 0xd then True else has_cdc_ncm,
         if uint (bInterfaceClass intf) = INTERFACE_CLASS h
            \<and> uint (bInterfaceSubClass intf) = INTERFACE_SUBCLASS h
            \<and> uint (bInterfaceProtocol intf) = INTERFACE_PROTOCOL h then True else has_usbmux))"

text \<open>
  The result is the mode number of the source's comment: 0 undetermined, 1 initial,
  2 valeria, 3 cdc\_ncm, 4 usbeth+cdc\_ncm, 5 cdc\_ncm direct.
\<close>

definition guess_mode :: "usb_h \<Rightarrow> libusb_device \<Rightarrow> usb_device \<Rightarrow> int" where
  "guess_mode h dev usbdev =
     (let n = bNumConfigurations (devdesc usbdev)
      in if n = 1 then 5
         else if n \<le> 4 then 1
         else if n = 6 then 4
         else if n \<noteq> 5 then 0
         else (case get_config_descriptor_by_value dev 5 of
                 None \<Rightarrow> 0
               | Some config \<Rightarrow>
                   (case foldl (guess_mode_flags h) (False, False, False) (cfg_interface config) of
                      (has_valeria, has_cdc_ncm, has_usbmux) \<Rightarrow>
                        if has_valeria \<and> has_usbmux then 2
                        else if has_cdc_ncm \<and> has_usbmux then 3
                        else 0)))"

section \<open>submit\_vendor\_specific\<close>

definition libusb_fill_control_transfer ::
  "nat \<Rightarrow> nat \<Rightarrow> control_setup \<Rightarrow> xfer_buffer \<Rightarrow> transfer_cb \<Rightarrow> nat \<Rightarrow> libusb_transfer" where
  "libusb_fill_control_transfer p hdl setup b cb t =
     \<lparr>xfer_id = p, xfer_handle = Some hdl, xfer_kind = Control setup, xfer_buffer = b,
      xfer_length = int (LIBUSB_CONTROL_SETUP_SIZE + unat (wLength setup)),
      xfer_callback = cb, xfer_timeout = t\<rparr>"

text \<open>
  The transfer and its buffer are used unchecked. The context goes to the callback as the
  transfer's \<open>user_data\<close>; in the model the callback receives it as an argument.
\<close>

definition submit_vendor_specific ::
  "nat \<Rightarrow> mode_context \<Rightarrow> transfer_cb \<Rightarrow> libusb \<Rightarrow> (int \<times> libusb) option" where
  "submit_vendor_specific hdl context callback l =
     (case libusb_alloc_transfer l of
        (None, l1) \<Rightarrow> None
      | (Some p, l1) \<Rightarrow>
          if malloc_null l1 then None
          else
            let buffer = malloc l1 (LIBUSB_CONTROL_SETUP_SIZE + unat (ctx_wLength context));
                bRequestType = LIBUSB_REQUEST_TYPE_VENDOR OR LIBUSB_ENDPOINT_IN
                                 OR LIBUSB_RECIPIENT_DEVICE;
                setup = \<lparr>bmRequestType = bRequestType, bRequest = ctx_bRequest context,
                         wValue = ctx_wValue context, wIndex = ctx_wIndex context,
                         wLength = ctx_wLength context\<rparr>;
                ctrl_transfer = libusb_fill_control_transfer p hdl setup buffer callback
                                  (ctx_timeout context)
            in Some (libusb_submit_transfer ctrl_transfer l1))"

section \<open>set\_valid\_configuration\<close>

text \<open>
  The interface loop. \<open>found\<close> and the device's fields come in from the rounds before;
  \<open>continue\<close> goes on with the rest of the list and \<open>break\<close> returns.
\<close>

fun find_interface ::
  "usb_h \<Rightarrow> libusb_interface_descriptor list \<Rightarrow> bool \<times> usb_device \<Rightarrow> bool \<times> usb_device" where
  "find_interface h [] (found, usbdev) = (found, usbdev)"
| "find_interface h (intf # rest) (found, usbdev) =
     (if uint (bInterfaceClass intf) = INTERFACE_CLASS h
         \<or> uint (bInterfaceSubClass intf) = INTERFACE_SUBCLASS h
         \<or> uint (bInterfaceProtocol intf) = INTERFACE_PROTOCOL h then
        if length (endpoint intf) \<noteq> 2 then find_interface h rest (found, usbdev)
        else if endpoint intf ! 0 AND 0x80 = LIBUSB_ENDPOINT_OUT
                \<and> endpoint intf ! 1 AND 0x80 = LIBUSB_ENDPOINT_IN then
          (True, usbdev\<lparr>interface := bInterfaceNumber intf, ep_out := endpoint intf ! 0,
                         ep_in := endpoint intf ! 1\<rparr>)
        else if endpoint intf ! 1 AND 0x80 = LIBUSB_ENDPOINT_OUT
                \<and> endpoint intf ! 0 AND 0x80 = LIBUSB_ENDPOINT_IN then
          (True, usbdev\<lparr>interface := bInterfaceNumber intf, ep_out := endpoint intf ! 1,
                         ep_in := endpoint intf ! 0\<rparr>)
        else find_interface h rest (found, usbdev)
      else find_interface h rest (found, usbdev))"

text \<open>The loop that detaches the kernel drivers; both results are only logged.\<close>

fun detach_kernel_drivers ::
  "libusb_device \<Rightarrow> libusb_interface_descriptor list \<Rightarrow> libusb \<Rightarrow> libusb" where
  "detach_kernel_drivers dev [] l = l"
| "detach_kernel_drivers dev (intf1 # rest) l =
     (let l1 = log_call (Kernel_driver_active (bInterfaceNumber intf1)) l;
          res = kernel_driver_active dev (bInterfaceNumber intf1)
      in if res < 0 then detach_kernel_drivers dev rest l1
         else if res = 1 then
           detach_kernel_drivers dev rest
             (log_call (Detach_kernel_driver (bInterfaceNumber intf1)) l1)
         else detach_kernel_drivers dev rest l1)"

text \<open>The loop over \<open>j = bNumConfigurations, ..., 1\<close>; the first argument is \<open>j\<close>.\<close>

fun configuration_loop ::
  "nat \<Rightarrow> usb_h \<Rightarrow> libusb_device \<Rightarrow> int \<Rightarrow> bool \<times> usb_device \<times> libusb
     \<Rightarrow> bool \<times> usb_device \<times> libusb" where
  "configuration_loop 0 h dev current_config st = st"
| "configuration_loop (Suc j') h dev current_config (found, usbdev, l) =
     (case get_config_descriptor_by_value dev (of_nat (Suc j')) of
        None \<Rightarrow> configuration_loop j' h dev current_config (found, usbdev, l)
      | Some config \<Rightarrow>
          (case find_interface h (cfg_interface config) (found, usbdev) of
             (found1, usbdev1) \<Rightarrow>
               if \<not> found1 then configuration_loop j' h dev current_config (found1, usbdev1, l)
               else if current_config = 0 \<or> uint (bConfigurationValue config) \<noteq> current_config
               then
                 let l1 = detach_kernel_drivers dev (cfg_interface config) l;
                     l2 = log_call (Set_configuration (int (Suc j'))) l1
                 in if set_configuration dev (int (Suc j')) \<noteq> 0
                    then configuration_loop j' h dev current_config (found1, usbdev1, l2)
                    else (found1, usbdev1, l2)
               else (found1, usbdev1, l)))"

definition set_valid_configuration ::
  "usb_h \<Rightarrow> libusb_device \<Rightarrow> usb_device \<Rightarrow> libusb \<Rightarrow> int \<times> usb_device \<times> libusb" where
  "set_valid_configuration h dev usbdev l =
     (let l1 = log_call Get_configuration l
      in case get_configuration dev of (res, current_config) \<Rightarrow>
           if res \<noteq> 0 then (- 1, usbdev, l1)
           else (case configuration_loop (unat (bNumConfigurations (devdesc usbdev))) h dev
                        current_config (False, usbdev, l1) of
                   (found, usbdev1, l2) \<Rightarrow>
                     if \<not> found then (- 1, usbdev1, l2) else (0, usbdev1, l2)))"

section \<open>device\_complete\_initialization\<close>

definition speed_of :: "libusb_speed \<Rightarrow> u64" where
  "speed_of sp =
     (case sp of
        LIBUSB_SPEED_LOW \<Rightarrow> 1500000
      | LIBUSB_SPEED_FULL \<Rightarrow> 12000000
      | LIBUSB_SPEED_SUPER \<Rightarrow> 5000000000
      | LIBUSB_SPEED_SUPER_PLUS \<Rightarrow> 10000000000
      | LIBUSB_SPEED_HIGH \<Rightarrow> 480000000
      | LIBUSB_SPEED_UNKNOWN \<Rightarrow> 480000000)"

definition mark_dead :: "nat \<Rightarrow> usb_device \<Rightarrow> libusb \<Rightarrow> usb_core \<Rightarrow> usb_core" where
  "mark_dead i usbdev l c = c\<lparr>device_list := (device_list c)[i := usbdev\<lparr>alive := 0\<rparr>], lib := l\<rparr>"

definition device_complete_initialization ::
  "usb_h \<Rightarrow> mode_context \<Rightarrow> nat \<Rightarrow> usb_core \<Rightarrow> usb_core" where
  "device_complete_initialization h context hdl c =
     (case find_device (uint (ctx_bus context)) (uint (ctx_address context)) (device_list c) of
        None \<Rightarrow> c
      | Some i \<Rightarrow>
          let dev = ctx_dev context;
              devdesc0 = devdesc (device_list c ! i)
          in case set_valid_configuration h dev (device_list c ! i) (lib c) of
               (res, usbdev, l1) \<Rightarrow>
                 if res \<noteq> 0 then mark_dead i usbdev l1 c
                 else
                   let l2 = log_call (Claim_interface (interface usbdev)) l1
                   in if claim_interface dev (interface usbdev) \<noteq> 0 then mark_dead i usbdev l2 c
                      else (case libusb_alloc_transfer l2 of
                              (None, l3) \<Rightarrow> mark_dead i usbdev l3 c
                            | (Some p, l3) \<Rightarrow>
                                if malloc_null l3 then mark_dead i usbdev l3 c
                                else
                                  let transfer_buffer =
                                        malloc l3 (1024 + LIBUSB_CONTROL_SETUP_SIZE + 8);
                                      mps = get_max_packet_size dev (ep_out usbdev);
                                      usbdev1 = usbdev
                                        \<lparr>serial := (serial usbdev)[0 := 0],
                                         bus := ctx_bus context,
                                         address := ctx_address context,
                                         devdesc := devdesc0,
                                         speed := speed_of (get_device_speed dev),
                                         handle := Some hdl,
                                         alive := 1,
                                         wMaxPacketSize := (if mps \<le> 0 then 64 else mps)\<rparr>;
                                      setup = \<lparr>bmRequestType = LIBUSB_ENDPOINT_IN,
                                               bRequest = LIBUSB_REQUEST_GET_DESCRIPTOR,
                                               wValue = push_bit 8 LIBUSB_DT_STRING,
                                               wIndex = 0,
                                               wLength = of_nat (1024 + LIBUSB_CONTROL_SETUP_SIZE)\<rparr>;
                                      transfer = libusb_fill_control_transfer p hdl setup
                                                   transfer_buffer Get_langid_callback 1000
                                  in case libusb_submit_transfer transfer l3 of
                                       (res1, l4) \<Rightarrow>
                                         if res1 < 0
                                         then mark_dead i usbdev1 (libusb_free_transfer transfer l4) c
                                         else c\<lparr>device_list := (device_list c)[i := usbdev1],
                                                lib := l4\<rparr>))"

section \<open>The mode callbacks\<close>

text \<open>
  A finished control transfer, as its callback sees it. \<open>control_data\<close> is the data region
  of its buffer (\<open>libusb_control_transfer_get_data\<close>), \<open>wLength\<close> bytes long.
\<close>

record control_completion =
  user_data :: mode_context
  status :: transfer_status
  dev_handle :: nat
  control_data :: "u8 list"

definition switch_mode_cb :: "usb_h \<Rightarrow> control_completion \<Rightarrow> usb_core \<Rightarrow> usb_core" where
  "switch_mode_cb h transfer c =
     (let context = user_data transfer
      in if status transfer \<noteq> LIBUSB_TRANSFER_COMPLETED
         then device_complete_initialization h context (dev_handle transfer) c
         else if control_data transfer ! 0 \<noteq> 0
         then device_complete_initialization h context (dev_handle transfer) c
         else c)"

text \<open>
  \<open>atoi\<close> of the C library: white space, an optional sign, decimal digits. For a value
  outside \<open>int\<close> the C standard leaves the result open; the model gives the number written.
\<close>

definition isspace :: "char \<Rightarrow> bool" where
  "isspace ch = (of_char ch \<in> {32, 9, 10, 11, 12, 13 :: nat})"

fun digits_value :: "int \<Rightarrow> string \<Rightarrow> int" where
  "digits_value acc [] = acc"
| "digits_value acc (ch # cs) =
     (if 48 \<le> (of_char ch :: nat) \<and> (of_char ch :: nat) \<le> 57
      then digits_value (10 * acc + (int (of_char ch) - 48)) cs
      else acc)"

definition atoi :: "string \<Rightarrow> int" where
  "atoi str =
     (case dropWhile isspace str of
        [] \<Rightarrow> 0
      | ch # cs \<Rightarrow>
          if ch = CHR ''-'' then - digits_value 0 cs
          else if ch = CHR ''+'' then digits_value 0 cs
          else digits_value 0 (ch # cs))"

text \<open>\<open>env\<close> is the value of \<open>getenv(ENV_DEVICE_MODE)\<close>, \<open>None\<close> when the variable is not set.\<close>

definition get_mode_cb ::
  "usb_h \<Rightarrow> string option \<Rightarrow> control_completion \<Rightarrow> usb_core \<Rightarrow> usb_core option" where
  "get_mode_cb h env transfer c =
     (let context = user_data transfer
      in case find_device (uint (ctx_bus context)) (uint (ctx_address context)) (device_list c) of
           None \<Rightarrow> Some c
         | Some i \<Rightarrow>
             if status transfer \<noteq> LIBUSB_TRANSFER_COMPLETED
             then Some (device_complete_initialization h context (dev_handle transfer) c)
             else
               let desired_mode = (case env of None \<Rightarrow> 1 | Some str \<Rightarrow> atoi str);
                   guessed_mode = guess_mode h (ctx_dev context) (device_list c ! i)
               in if desired_mode \<ge> 1 \<and> desired_mode \<le> 5 \<and> guessed_mode > 0
                     \<and> guessed_mode \<noteq> desired_mode then
                    let context1 = context
                          \<lparr>ctx_bRequest := word_of_int (APPLE_VEND_SPECIFIC_SET_MODE h),
                           ctx_wValue := 0,
                           ctx_wIndex := word_of_int desired_mode,
                           ctx_wLength := 1\<rparr>
                    in (case submit_vendor_specific (dev_handle transfer) context1 Switch_mode_cb
                               (lib c) of
                          None \<Rightarrow> None
                        | Some (res, l1) \<Rightarrow>
                            if res \<noteq> 0
                            then Some (mark_dead i (device_list c ! i) l1 c)
                            else Some (c\<lparr>lib := l1\<rparr>))
                  else Some (device_complete_initialization h context (dev_handle transfer) c))"

section \<open>usb\_device\_add and usb\_discover\<close>

text \<open>
  The new record is \<open>memset\<close> to zero before its fields are set. Both \<open>malloc\<close> results (the
  record, the mode context) are used unchecked.
\<close>

definition usb_device_add :: "usb_h \<Rightarrow> libusb_device \<Rightarrow> usb_core \<Rightarrow> (int \<times> usb_core) option" where
  "usb_device_add h dev c =
     (let bus0 = get_bus_number dev;
          address0 = get_device_address dev
      in case find_device (uint bus0) (uint address0) (device_list c) of
           Some i \<Rightarrow>
             Some (0, c\<lparr>device_list := (device_list c)[i := (device_list c ! i)\<lparr>alive := 1\<rparr>]\<rparr>)
         | None \<Rightarrow>
             (case get_device_descriptor dev of (res, devdesc0) \<Rightarrow>
                if res \<noteq> 0 then Some (- 1, c)
                else if uint (idVendor devdesc0) \<noteq> VID_APPLE h then Some (- 1, c)
                else if uint (idProduct devdesc0) \<noteq> PID_APPLE_T2_COPROCESSOR h
                        \<and> (uint (idProduct devdesc0) < PID_APPLE_SILICON_RESTORE_LOW h
                             \<or> uint (idProduct devdesc0) > PID_APPLE_SILICON_RESTORE_MAX h)
                        \<and> (uint (idProduct devdesc0) < PID_RANGE_LOW h
                             \<or> uint (idProduct devdesc0) > PID_RANGE_MAX h)
                then Some (- 1, c)
                else (case open_device dev of
                        None \<Rightarrow> Some (- 1, c)
                      | Some hdl \<Rightarrow>
                          if malloc_null (lib c) then None
                          else
                            let usbdev = \<lparr>handle = Some hdl, bus = bus0, address = address0,
                                          serial = replicate 256 0, alive = 1, interface = 0,
                                          ep_in = 0, ep_out = 0, rx_xfers = [], tx_xfers = [],
                                          wMaxPacketSize = 0, speed = 0, devdesc = devdesc0\<rparr>;
                                context = \<lparr>ctx_dev = dev, ctx_bus = bus0, ctx_address = address0,
                                           ctx_bRequest =
                                             word_of_int (APPLE_VEND_SPECIFIC_GET_MODE h),
                                           ctx_wValue = 0, ctx_wIndex = 0, ctx_wLength = 4,
                                           ctx_timeout = 1000\<rparr>
                            in (case submit_vendor_specific hdl context Get_mode_cb (lib c) of
                                  None \<Rightarrow> None
                                | Some (res1, l1) \<Rightarrow>
                                    if res1 \<noteq> 0
                                    then Some (- 1, c\<lparr>device_list :=
                                                       device_list c @ [usbdev\<lparr>alive := 0\<rparr>],
                                                     lib := l1\<rparr>)
                                    else Some (0, c\<lparr>device_list := device_list c @ [usbdev],
                                                  lib := l1\<rparr>)))))"

record timeval =
  tv_sec :: int
  tv_usec :: int

text \<open>The statics that only \<open>usb_discover\<close> and \<open>usb_init\<close> write.\<close>

record usb_globals =
  devlist_failures :: int
  next_dev_poll_time :: timeval

definition DEVICE_POLL_TIME :: int where "DEVICE_POLL_TIME = 1000"

text \<open>The poll time set from \<open>get_tick_count\<close>'s answer \<open>now\<close>.\<close>

definition next_poll :: "timeval \<Rightarrow> timeval" where
  "next_poll now =
     (let usec = tv_usec now + DEVICE_POLL_TIME * 1000
      in \<lparr>tv_sec = tv_sec now + usec sdiv 1000000, tv_usec = usec smod 1000000\<rparr>)"

text \<open>
  What \<open>libusb_get_device_list\<close> returns: a negative error code, or the devices, whose
  number is the return value.
\<close>

datatype get_device_list_result =
  Device_list_error int
  | Device_list "libusb_device list"

definition list_cnt :: "get_device_list_result \<Rightarrow> int" where
  "list_cnt fetched = (case fetched of Device_list_error e \<Rightarrow> e | Device_list devs \<Rightarrow> int (length devs))"

definition list_devs :: "get_device_list_result \<Rightarrow> libusb_device list" where
  "list_devs fetched = (case fetched of Device_list_error e \<Rightarrow> [] | Device_list devs \<Rightarrow> devs)"

text \<open>The loop over \<open>devs\<close>, counting the devices \<open>usb_device_add\<close> accepts.\<close>

fun add_devices :: "usb_h \<Rightarrow> libusb_device list \<Rightarrow> int \<times> usb_core \<Rightarrow> (int \<times> usb_core) option" where
  "add_devices h [] (valid_count, c) = Some (valid_count, c)"
| "add_devices h (dev # devs) (valid_count, c) =
     (case usb_device_add h dev c of
        None \<Rightarrow> None
      | Some (res, c1) \<Rightarrow>
          if res < 0 then add_devices h devs (valid_count, c1)
          else add_devices h devs (valid_count + 1, c1))"

text \<open>
  \<open>reap_dead_devices\<close> disconnects the dead devices, and \<open>usb_disconnect\<close> runs libusb's
  event loop, which calls back into usb.c for whatever transfers complete meanwhile. It is
  an argument of the model: any function on the device list and the library state.
  \<open>fetched\<close> is the answer of \<open>libusb_get_device_list\<close>, \<open>now\<close> that of \<open>get_tick_count\<close>.
\<close>

definition usb_discover ::
  "usb_h \<Rightarrow> (usb_core \<Rightarrow> usb_core) \<Rightarrow> get_device_list_result \<Rightarrow> timeval \<Rightarrow> usb_globals
     \<Rightarrow> usb_core \<Rightarrow> (int \<times> usb_globals \<times> usb_core) option" where
  "usb_discover h reap_dead_devices fetched now g c =
     (let cnt = list_cnt fetched
      in if cnt < 0 then
           let g1 = g\<lparr>devlist_failures := devlist_failures g + 1\<rparr>
           in if devlist_failures g1 > 5 then Some (cnt, g1, c)
              else Some (0, g1\<lparr>next_dev_poll_time := next_poll now\<rparr>, c)
         else
           let g1 = g\<lparr>devlist_failures := 0\<rparr>;
               c1 = c\<lparr>device_list := map (\<lambda>usbdev. usbdev\<lparr>alive := 0\<rparr>) (device_list c)\<rparr>
           in (case add_devices h (list_devs fetched) (0, c1) of
                 None \<Rightarrow> None
               | Some (valid_count, c2) \<Rightarrow>
                   Some (valid_count, g1\<lparr>next_dev_poll_time := next_poll now\<rparr>,
                         reap_dead_devices c2)))"

section \<open>Notions the properties are stated with\<close>

text \<open>The two transfers \<open>usb_send\<close> builds, by the pointer the allocator gave.\<close>

definition payload_xfer :: "usb_device \<Rightarrow> u8 list \<Rightarrow> int \<Rightarrow> nat \<Rightarrow> libusb_transfer" where
  "payload_xfer dev buf len p =
     \<lparr>xfer_id = p, xfer_handle = handle dev, xfer_kind = Bulk (ep_out dev),
      xfer_buffer = Caller_buffer buf, xfer_length = len, xfer_callback = Tx_callback,
      xfer_timeout = 0\<rparr>"

definition zlp_xfer :: "usb_device \<Rightarrow> xfer_buffer \<Rightarrow> nat \<Rightarrow> libusb_transfer" where
  "zlp_xfer dev b p =
     \<lparr>xfer_id = p, xfer_handle = handle dev, xfer_kind = Bulk (ep_out dev),
      xfer_buffer = b, xfer_length = 0, xfer_callback = Tx_callback, xfer_timeout = 0\<rparr>"

text \<open>The transfers a successful \<open>usb_send\<close> submits, in order.\<close>

definition sent_by_usb_send :: "usb_device \<Rightarrow> u8 list \<Rightarrow> int \<Rightarrow> libusb \<Rightarrow> libusb_transfer list" where
  "sent_by_usb_send dev buf len l =
     payload_xfer dev buf len (next_xfer l) #
       (if len smod wMaxPacketSize dev = 0
        then [zlp_xfer dev (malloc l 1) (Suc (next_xfer l))] else [])"

text \<open>The return values of consecutive calls of \<open>usb_discover\<close>, one per fetch.\<close>

fun usb_discover_calls ::
  "usb_h \<Rightarrow> (usb_core \<Rightarrow> usb_core) \<Rightarrow> (get_device_list_result \<times> timeval) list \<Rightarrow> usb_globals
     \<Rightarrow> usb_core \<Rightarrow> (int list \<times> usb_globals \<times> usb_core) option" where
  "usb_discover_calls h reap [] g c = Some ([], g, c)"
| "usb_discover_calls h reap ((fetched, now) # rest) g c =
     (case usb_discover h reap fetched now g c of
        None \<Rightarrow> None
      | Some (res, g1, c1) \<Rightarrow>
          (case usb_discover_calls h reap rest g1 c1 of
             None \<Rightarrow> None
           | Some (ress, g2, c2) \<Rightarrow> Some (res # ress, g2, c2)))"

section \<open>Example values\<close>

text \<open>
  A live device on bus 3, address 7, with a bulk-out endpoint of 64-byte packets, a
  library with nothing queued, and usb.h as upstream usbmuxd ships it.
\<close>

definition example_devdesc :: libusb_device_descriptor where
  "example_devdesc =
     \<lparr>idVendor = 0x05ac, idProduct = 0x12a8, iSerialNumber = 3, bNumConfigurations = 4\<rparr>"

definition example_usbdev :: usb_device where
  "example_usbdev =
     \<lparr>handle = Some 1, bus = 3, address = 7, serial = replicate 256 0, alive = 1,
      interface = 1, ep_in = 0x85, ep_out = 0x04, rx_xfers = [], tx_xfers = [],
      wMaxPacketSize = 64, speed = 480000000, devdesc = example_devdesc\<rparr>"

definition idle_libusb :: libusb where
  "idle_libusb =
     \<lparr>next_xfer = 0, submit_results = [], submitted = [], freed = [], calls = [],
      alloc_transfer_null = False, malloc_null = False\<rparr>"

definition upstream_usb_h :: usb_h where
  "upstream_usb_h =
     \<lparr>INTERFACE_CLASS = 255, INTERFACE_SUBCLASS = 254, INTERFACE_PROTOCOL = 2,
      VID_APPLE = 0x05ac, PID_APPLE_T2_COPROCESSOR = 0x8600,
      PID_APPLE_SILICON_RESTORE_LOW = 0x1901, PID_APPLE_SILICON_RESTORE_MAX = 0x1905,
      PID_RANGE_LOW = 0x1290, PID_RANGE_MAX = 0x12af,
      APPLE_VEND_SPECIFIC_GET_MODE = 0x45, APPLE_VEND_SPECIFIC_SET_MODE = 0x52\<rparr>"

text \<open>A string descriptor of 1032 bytes carrying the given text, one unit per character.\<close>

definition ascii :: "string \<Rightarrow> u8 list" where
  "ascii str = map of_char str"

definition string_descriptor :: "u8 list \<Rightarrow> u8 list" where
  "string_descriptor units =
     [of_nat (2 + length units), 3] @ units @ replicate (1032 - (2 + length units)) 0"

definition utf16le :: "string \<Rightarrow> u8 list" where
  "utf16le str = concat (map (\<lambda>ch. [of_char ch, 0]) str)"

text \<open>The three kinds of interface \<open>guess_mode\<close> looks for in configuration 5.\<close>

definition usbmux_interface :: "usb_h \<Rightarrow> libusb_interface_descriptor \<Rightarrow> bool" where
  "usbmux_interface h intf =
     (uint (bInterfaceClass intf) = INTERFACE_CLASS h
      \<and> uint (bInterfaceSubClass intf) = INTERFACE_SUBCLASS h
      \<and> uint (bInterfaceProtocol intf) = INTERFACE_PROTOCOL h)"

definition valeria_interface :: "usb_h \<Rightarrow> libusb_interface_descriptor \<Rightarrow> bool" where
  "valeria_interface h intf =
     (uint (bInterfaceClass intf) = INTERFACE_CLASS h \<and> bInterfaceSubClass intf = 42
      \<and> bInterfaceProtocol intf = 255)"

definition cdc_ncm_interface :: "libusb_interface_descriptor \<Rightarrow> bool" where
  "cdc_ncm_interface intf = (bInterfaceClass intf = 2 \<and> bInterfaceSubClass intf = 0x0d)"

text \<open>
  Example descriptors: the multiplexer interface with its two bulk endpoints, the Valeria
  and CDC-NCM interfaces, and a device with \<open>n\<close> configurations whose descriptors are
  \<open>configs\<close>, attached at bus 3, address 7, currently in configuration 1.
\<close>

definition usbmux_intf :: libusb_interface_descriptor where
  "usbmux_intf =
     \<lparr>bInterfaceNumber = 1, bInterfaceClass = 255, bInterfaceSubClass = 254,
      bInterfaceProtocol = 2, endpoint = [0x04, 0x85]\<rparr>"

definition valeria_intf :: libusb_interface_descriptor where
  "valeria_intf =
     \<lparr>bInterfaceNumber = 2, bInterfaceClass = 255, bInterfaceSubClass = 42,
      bInterfaceProtocol = 255, endpoint = [0x86]\<rparr>"

definition cdc_ncm_intf :: libusb_interface_descriptor where
  "cdc_ncm_intf =
     \<lparr>bInterfaceNumber = 2, bInterfaceClass = 2, bInterfaceSubClass = 0x0d,
      bInterfaceProtocol = 0, endpoint = [0x87]\<rparr>"

definition ptp_intf :: libusb_interface_descriptor where
  "ptp_intf =
     \<lparr>bInterfaceNumber = 0, bInterfaceClass = 6, bInterfaceSubClass = 1,
      bInterfaceProtocol = 1, endpoint = [0x81, 0x02, 0x83]\<rparr>"

definition example_device ::
  "u8 \<Rightarrow> (u8 \<Rightarrow> libusb_config_descriptor option) \<Rightarrow> libusb_device" where
  "example_device n configs =
     \<lparr>get_bus_number = 3, get_device_address = 7,
      get_device_descriptor = (0, example_devdesc\<lparr>bNumConfigurations := n\<rparr>),
      get_config_descriptor_by_value = configs,
      open_device = Some 1,
      get_max_packet_size = (\<lambda>ep. 512),
      get_device_speed = LIBUSB_SPEED_HIGH,
      get_configuration = (0, 1),
      kernel_driver_active = (\<lambda>i. 0),
      detach_kernel_driver = (\<lambda>i. 0),
      set_configuration = (\<lambda>j. 0),
      claim_interface = (\<lambda>i. 0)\<rparr>"

definition example_usbdev_n :: "u8 \<Rightarrow> usb_device" where
  "example_usbdev_n n = example_usbdev\<lparr>devdesc := example_devdesc\<lparr>bNumConfigurations := n\<rparr>\<rparr>"

definition no_configs :: "u8 \<Rightarrow> libusb_config_descriptor option" where
  "no_configs v = None"

definition config_5 ::
  "libusb_interface_descriptor list \<Rightarrow> u8 \<Rightarrow> libusb_config_descriptor option" where
  "config_5 intfs v =
     (if v = 5 then Some \<lparr>bConfigurationValue = 5, cfg_interface = intfs\<rparr> else None)"

text \<open>
  The desired mode \<open>get_mode_cb\<close> reads from the environment, the SET\_MODE transfer it
  builds for a desired mode (with the pointer the allocator gives next), and the mode
  switches libusb has in flight: the transfers whose callback is \<open>switch_mode_cb\<close>.
\<close>

definition desired_mode :: "string option \<Rightarrow> int" where
  "desired_mode env = (case env of None \<Rightarrow> 1 | Some str \<Rightarrow> atoi str)"

definition set_mode_transfer ::
  "usb_h \<Rightarrow> control_completion \<Rightarrow> int \<Rightarrow> libusb \<Rightarrow> libusb_transfer" where
  "set_mode_transfer h transfer desired l =
     \<lparr>xfer_id = next_xfer l, xfer_handle = Some (dev_handle transfer),
      xfer_kind = Control
        \<lparr>bmRequestType = 0xC0, bRequest = word_of_int (APPLE_VEND_SPECIFIC_SET_MODE h),
         wValue = 0, wIndex = word_of_int desired, wLength = 1\<rparr>,
      xfer_buffer = Malloc_buffer 9, xfer_length = 9, xfer_callback = Switch_mode_cb,
      xfer_timeout = ctx_timeout (user_data transfer)\<rparr>"

definition mode_switches :: "libusb \<Rightarrow> libusb_transfer list" where
  "mode_switches l = filter (\<lambda>x. xfer_callback x = Switch_mode_cb) (submitted l)"

text \<open>
  The example device as the only entry of the device list, and a control transfer on it
  that completed with the given data.
\<close>

definition example_core :: "u8 \<Rightarrow> usb_core" where
  "example_core n = \<lparr>device_list = [example_usbdev_n n], lib = idle_libusb\<rparr>"

definition example_context :: "libusb_device \<Rightarrow> mode_context" where
  "example_context dev =
     \<lparr>ctx_dev = dev, ctx_bus = 3, ctx_address = 7, ctx_bRequest = 0x45, ctx_wValue = 0,
      ctx_wIndex = 0, ctx_wLength = 4, ctx_timeout = 1000\<rparr>"

definition example_completion :: "libusb_device \<Rightarrow> u8 list \<Rightarrow> control_completion" where
  "example_completion dev data =
     \<lparr>user_data = example_context dev, status = LIBUSB_TRANSFER_COMPLETED, dev_handle = 1,
      control_data = data\<rparr>"

definition valeria_device :: libusb_device where
  "valeria_device = example_device 5 (config_5 [ptp_intf, usbmux_intf, valeria_intf])"

text \<open>
  A failing fetch with libusb's \<open>LIBUSB_ERROR_NO_MEM = -11\<close> at tick \<open>(100, 0)\<close>, the statics
  as \<open>usb_init\<close> leaves them, and a \<open>reap_dead_devices\<close> that finds nothing to do.
\<close>

definition failing_fetch :: "get_device_list_result \<times> timeval" where
  "failing_fetch = (Device_list_error (- 11), \<lparr>tv_sec = 100, tv_usec = 0\<rparr>)"

definition initial_globals :: usb_globals where
  "initial_globals = \<lparr>devlist_failures = 0, next_dev_poll_time = \<lparr>tv_sec = 0, tv_usec = 0\<rparr>\<rparr>"

definition reap_nothing :: "usb_core \<Rightarrow> usb_core" where
  "reap_nothing c = c"

section \<open>The accessors\<close>

lemma location_disjoint: "push_bit 16 (uint (b::u8)) AND uint (a::u8) = 0"
proof (rule bit_eqI)
  fix n
  show "bit (push_bit 16 (uint b) AND uint a) n = bit (0::int) n"
  proof (cases "n < 16")
    case True
    then show ?thesis by (simp add: bit_simps)
  next
    case False
    then have "8 \<le> n" by simp
    then have "\<not> bit (uint a) n" by (simp add: bit_uint_iff)
    then show ?thesis by (simp add: bit_simps)
  qed
qed

lemma location_value: "push_bit 16 (uint (b::u8)) OR uint (a::u8) = uint b * 65536 + uint a"
  using disjunctive_add_eq_or [OF location_disjoint, of b a] by (simp add: push_bit_eq_mult)

lemma location_bound: "push_bit 16 (uint (b::u8)) OR uint (a::u8) < 2 ^ 32"
proof -
  have "uint b < 2 ^ 8" "uint a < 2 ^ 8"
    using uint_bounded [of b] uint_bounded [of a] by simp_all
  then show ?thesis unfolding location_value by simp
qed

text \<open>
  C8. For a live device (non-null handle) \<open>usb_get_location\<close> returns
  \<open>(bus << 16) | address\<close>: the value of the result is that number, with no bit lost in
  the conversion to \<open>uint32_t\<close>; it is \<open>bus * 65536 + address\<close>.
\<close>

theorem usb_get_location_live:
  "handle d \<noteq> None \<Longrightarrow>
     uint (usb_get_location d) = push_bit 16 (uint (bus d)) OR uint (address d)
     \<and> unat (usb_get_location d) = unat (bus d) * 2 ^ 16 + unat (address d)"
proof -
  assume h: "handle d \<noteq> None"
  define k where "k = push_bit 16 (uint (bus d)) OR uint (address d)"
  have "0 \<le> k" by (simp add: k_def)
  moreover have "k < 2 ^ 32" unfolding k_def by (rule location_bound)
  ultimately have tk: "take_bit 32 k = k" by (rule take_bit_int_eq_self)
  from h have "usb_get_location d = word_of_int k"
    by (auto simp: usb_get_location_def k_def)
  then have "uint (usb_get_location d) = take_bit 32 k"
    by (simp add: uint_word_of_int_eq)
  with tk have u: "uint (usb_get_location d) = k" by simp
  have "k = uint (bus d) * 65536 + uint (address d)" unfolding k_def by (rule location_value)
  with u have "int (unat (usb_get_location d)) = int (unat (bus d) * 2 ^ 16 + unat (address d))"
    by simp
  then have "unat (usb_get_location d) = unat (bus d) * 2 ^ 16 + unat (address d)"
    by (rule int_int_eq [THEN iffD1])
  with u show ?thesis by (simp add: k_def)
qed

theorem usb_get_location_live_witness:
  "handle example_usbdev \<noteq> None \<and> unat (usb_get_location example_usbdev) = 196615"
  using usb_get_location_live [of example_usbdev] by (simp add: example_usbdev_def)

text \<open>
  C9. On a dead record (null handle) \<open>usb_get_serial\<close> returns \<open>NULL\<close> and
  \<open>usb_get_location\<close>, \<open>usb_get_pid\<close> and \<open>usb_get_speed\<close> return 0, whatever the other
  fields hold: two dead records give the same four results.
\<close>

theorem accessors_dead:
  "handle d = None \<Longrightarrow>
     usb_get_serial d = None \<and> usb_get_location d = 0 \<and> usb_get_pid d = 0
     \<and> usb_get_speed d = 0
     \<and> (handle d' = None \<longrightarrow>
          usb_get_serial d' = usb_get_serial d \<and> usb_get_location d' = usb_get_location d
          \<and> usb_get_pid d' = usb_get_pid d \<and> usb_get_speed d' = usb_get_speed d)"
  by (simp add: usb_get_serial_def usb_get_location_def usb_get_pid_def usb_get_speed_def)

theorem accessors_dead_witness:
  "handle (example_usbdev\<lparr>handle := None\<rparr>) = None
   \<and> handle (example_usbdev\<lparr>handle := None, bus := 9, speed := 12000000\<rparr>) = None
   \<and> usb_get_serial (example_usbdev\<lparr>handle := None\<rparr>) = None
   \<and> usb_get_location (example_usbdev\<lparr>handle := None\<rparr>) = 0
   \<and> usb_get_pid (example_usbdev\<lparr>handle := None\<rparr>) = 0
   \<and> usb_get_speed (example_usbdev\<lparr>handle := None\<rparr>) = 0
   \<and> usb_get_location (example_usbdev\<lparr>handle := None, bus := 9, speed := 12000000\<rparr>) = 0"
  using accessors_dead [of "example_usbdev\<lparr>handle := None\<rparr>"
                           "example_usbdev\<lparr>handle := None, bus := 9, speed := 12000000\<rparr>"]
  by simp

section \<open>usb\_send\<close>

text \<open>
  C1, as the code has it. When the allocations and both submissions succeed and
  \<open>wMaxPacketSize\<close> is not 0, \<open>usb_send\<close> returns 0 and has submitted the payload transfer,
  followed by one zero-length transfer on the same endpoint exactly when
  \<open>length % wMaxPacketSize = 0\<close>; this includes \<open>length = 0\<close>. The same transfers, in the
  same order, are added to the device's tx set.
\<close>

theorem usb_send_zlp:
  assumes w: "wMaxPacketSize dev \<noteq> 0"
    and mem: "\<not> alloc_transfer_null l"
    and ok: "set (take 2 (submit_results l)) \<subseteq> {0}"
  shows "usb_send dev buf len l =
     Some (0, dev\<lparr>tx_xfers := tx_xfers dev @ sent_by_usb_send dev buf len l\<rparr>,
           l\<lparr>next_xfer := next_xfer l + length (sent_by_usb_send dev buf len l),
             submit_results := drop (length (sent_by_usb_send dev buf len l)) (submit_results l),
             submitted := submitted l @ sent_by_usb_send dev buf len l\<rparr>)"
proof (cases "submit_results l")
  case Nil
  with w mem show ?thesis
    by (cases l)
      (simp add: Let_def usb_send_def libusb_alloc_transfer_def libusb_submit_transfer_def
        libusb_fill_bulk_transfer_def sent_by_usb_send_def payload_xfer_def zlp_xfer_def
        malloc_def)
next
  case (Cons r rs)
  with ok have r: "r = 0" by simp
  show ?thesis
  proof (cases rs)
    case Nil
    with \<open>submit_results l = r # rs\<close> r w mem show ?thesis
      by (simp add: Let_def usb_send_def libusb_alloc_transfer_def libusb_submit_transfer_def
          libusb_fill_bulk_transfer_def sent_by_usb_send_def payload_xfer_def zlp_xfer_def
          malloc_def)
  next
    case (Cons r2 rs2)
    with \<open>submit_results l = r # rs\<close> ok have "r2 = 0" by (simp add: numeral_2_eq_2)
    with Cons \<open>submit_results l = r # rs\<close> r w mem show ?thesis
      by (simp add: Let_def usb_send_def libusb_alloc_transfer_def libusb_submit_transfer_def
          libusb_fill_bulk_transfer_def sent_by_usb_send_def payload_xfer_def zlp_xfer_def
          malloc_def)
  qed
qed

text \<open>A write of 64 bytes to the example device: the payload and one zero-length packet.\<close>

theorem usb_send_zlp_witness:
  "wMaxPacketSize example_usbdev \<noteq> 0 \<and> \<not> alloc_transfer_null idle_libusb
   \<and> set (take 2 (submit_results idle_libusb)) \<subseteq> {0}
   \<and> usb_send example_usbdev (replicate 64 0x55) 64 idle_libusb =
       Some (0,
         example_usbdev\<lparr>tx_xfers :=
           [payload_xfer example_usbdev (replicate 64 0x55) 64 0,
            zlp_xfer example_usbdev (Malloc_buffer 1) 1]\<rparr>,
         idle_libusb\<lparr>next_xfer := 2, submitted :=
           [payload_xfer example_usbdev (replicate 64 0x55) 64 0,
            zlp_xfer example_usbdev (Malloc_buffer 1) 1]\<rparr>)"
  using usb_send_zlp [of example_usbdev idle_libusb "replicate 64 0x55" 64]
  by (simp add: example_usbdev_def idle_libusb_def sent_by_usb_send_def malloc_def)

text \<open>
  C1 as stated fails for a write of length 0: the call submits two transfers, the empty
  payload and a zero-length packet after it.
\<close>

theorem usb_send_zero_length_counterexample:
  "usb_send example_usbdev [] 0 idle_libusb =
     Some (0,
       example_usbdev\<lparr>tx_xfers :=
         [payload_xfer example_usbdev [] 0 0, zlp_xfer example_usbdev (Malloc_buffer 1) 1]\<rparr>,
       idle_libusb\<lparr>next_xfer := 2, submitted :=
         [payload_xfer example_usbdev [] 0 0, zlp_xfer example_usbdev (Malloc_buffer 1) 1]\<rparr>)"
  by (simp add: Let_def usb_send_def libusb_alloc_transfer_def libusb_submit_transfer_def
      libusb_fill_bulk_transfer_def payload_xfer_def zlp_xfer_def malloc_def
      example_usbdev_def idle_libusb_def)

text \<open>
  C10. If the first submission fails with \<open>r < 0\<close>, \<open>usb_send\<close> returns \<open>r\<close>, the device (its
  tx set with it) is unchanged, and the transfer is freed and not in flight. If the payload
  is accepted and the submission of the zero-length packet fails with \<open>r < 0\<close>, \<open>usb_send\<close>
  returns \<open>r\<close> and frees the second transfer, while the payload transfer stays in the tx
  set and in flight.
\<close>

theorem usb_send_partial:
  "(\<not> alloc_transfer_null l \<and> submit_results l = r # rs \<and> r < 0 \<longrightarrow>
      usb_send dev buf len l =
        Some (r, dev,
              l\<lparr>next_xfer := Suc (next_xfer l), submit_results := rs,
                freed := freed l @ [payload_xfer dev buf len (next_xfer l)]\<rparr>))
   \<and> (\<not> alloc_transfer_null l \<and> submit_results l = 0 # r # rs \<and> r < 0
        \<and> wMaxPacketSize dev \<noteq> 0 \<and> len smod wMaxPacketSize dev = 0 \<longrightarrow>
      usb_send dev buf len l =
        Some (r, dev\<lparr>tx_xfers := tx_xfers dev @ [payload_xfer dev buf len (next_xfer l)]\<rparr>,
              l\<lparr>next_xfer := Suc (Suc (next_xfer l)), submit_results := rs,
                submitted := submitted l @ [payload_xfer dev buf len (next_xfer l)],
                freed := freed l @ [zlp_xfer dev (malloc l 1) (Suc (next_xfer l))]\<rparr>))"
  by (simp add: Let_def usb_send_def libusb_alloc_transfer_def libusb_submit_transfer_def
      libusb_fill_bulk_transfer_def libusb_free_transfer_def payload_xfer_def zlp_xfer_def
      malloc_def)

text \<open>
  Both cases on the example device, with libusb answering \<open>LIBUSB_ERROR_NO_DEVICE = -4\<close>:
  to the first submission of a 3-byte write, and to the second of a 128-byte write.
\<close>

theorem usb_send_partial_witness:
  "usb_send example_usbdev [1, 2, 3] 3 (idle_libusb\<lparr>submit_results := [- 4]\<rparr>) =
     Some (- 4, example_usbdev,
           idle_libusb\<lparr>next_xfer := 1,
             freed := [payload_xfer example_usbdev [1, 2, 3] 3 0]\<rparr>)
   \<and> usb_send example_usbdev (replicate 128 0) 128 (idle_libusb\<lparr>submit_results := [0, - 4]\<rparr>) =
     Some (- 4,
           example_usbdev\<lparr>tx_xfers := [payload_xfer example_usbdev (replicate 128 0) 128 0]\<rparr>,
           idle_libusb\<lparr>next_xfer := 2,
             submitted := [payload_xfer example_usbdev (replicate 128 0) 128 0],
             freed := [zlp_xfer example_usbdev (Malloc_buffer 1) 1]\<rparr>)"
  using usb_send_partial [of "idle_libusb\<lparr>submit_results := [- 4]\<rparr>" "- 4" "[]"
                             example_usbdev "[1, 2, 3]" 3]
    usb_send_partial [of "idle_libusb\<lparr>submit_results := [0, - 4]\<rparr>" "- 4" "[]"
                             example_usbdev "replicate 128 0" 128]
  by (simp add: example_usbdev_def idle_libusb_def malloc_def)

section \<open>The serial string\<close>

lemma units_bound: "(2 + 2 * di < unat (b::u8)) = (di < (unat b - 1) div 2)"
  by arith

lemma units_small: "di < (unat (b::u8) - 1) div 2 \<Longrightarrow> di < 127"
  using unsigned_less [of b, where 'a = nat] by simp

lemma drop_units_Cons:
  "di < (unat (data ! 0) - 1) div 2 \<Longrightarrow>
   drop di (descriptor_units data) =
     (data ! (2 + 2 * di), data ! (2 + 2 * di + 1)) # drop (Suc di) (descriptor_units data)"
proof -
  assume lt: "di < (unat (data ! 0) - 1) div 2"
  let ?n = "(unat (data ! 0) - 1) div 2"
  have "drop di [0 ..< ?n] = [di ..< ?n]" by simp
  also have "\<dots> = di # [Suc di ..< ?n]" using lt by (rule upt_conv_Cons)
  finally have d: "drop di [0 ..< ?n] = di # [Suc di ..< ?n]" .
  have "drop (Suc di) [0 ..< ?n] = [Suc di ..< ?n]" by simp
  with d show ?thesis
    unfolding descriptor_units_def drop_map by simp
qed

lemma drop_units_Nil:
  "\<not> di < (unat (data ! 0) - 1) div 2 \<Longrightarrow> drop di (descriptor_units data) = []"
  by (simp add: descriptor_units_def)

lemma decode_units_Nil: "decode_units [] = []"
  by (simp add: decode_units_def)

lemma decode_units_Cons:
  "decode_units (u # us) = (if nul_unit u then [] else unit_char u # decode_units us)"
  by (simp add: decode_units_def)

text \<open>
  The loop invariant: with \<open>si = 2 + 2 * di\<close>, the loop leaves in \<open>ser[0..di')\<close> what was
  there before position \<open>di\<close>, followed by the decoding of the units from number \<open>di\<close> on.
\<close>

lemma deunicode_loop_spec:
  "si = 2 + 2 * di \<Longrightarrow> length ser = 256 \<Longrightarrow> deunicode_loop data ser di si = (ser', di') \<Longrightarrow>
   length ser' = 256 \<and>
   take di' ser' = take di ser @ decode_units (drop di (descriptor_units data))"
proof (induction data ser di si rule: deunicode_loop.induct)
  case (1 data ser di si)
  let ?n = "(unat (data ! 0) - 1) div 2"
  let ?u = "(data ! (2 + 2 * di), data ! (2 + 2 * di + 1))"
  show ?case
  proof (cases "di < ?n")
    case False
    with "1.prems"(1) have "\<not> si < unat (data ! 0)"
      using units_bound [of di "data ! 0"] by simp
    then have "deunicode_loop data ser di si = (ser, di)"
      by (subst deunicode_loop.simps) simp
    with "1.prems" False show ?thesis by (simp add: drop_units_Nil decode_units_Nil)
  next
    case True
    then have si: "si < unat (data ! 0)" and di: "di < 255" and dl: "di < length ser"
      using "1.prems"(1,2) units_small [OF True] units_bound [of di "data ! 0"] by simp_all
    have si1: "si + 1 = 2 + 2 * di + 1" and si0: "si = 2 + 2 * di"
      and si2: "si + 2 = 2 + 2 * (di + 1)"
      using "1.prems"(1) by simp_all
    note dr = drop_units_Cons [OF True]
    consider (q) "data ! si AND 0x80 \<noteq> 0 \<or> data ! (si + 1) \<noteq> 0"
      | (z) "\<not> (data ! si AND 0x80 \<noteq> 0 \<or> data ! (si + 1) \<noteq> 0)" "data ! si = 0"
      | (a) "\<not> (data ! si AND 0x80 \<noteq> 0 \<or> data ! (si + 1) \<noteq> 0)" "data ! si \<noteq> 0"
      by blast
    then show ?thesis
    proof cases
      case q
      then have rec: "deunicode_loop data (ser[di := 0x3F]) (di + 1) (si + 2) = (ser', di')"
        using "1.prems"(3) si di by (subst (asm) deunicode_loop.simps) simp
      have nn: "\<not> nul_unit ?u" and uc: "unit_char ?u = 0x3F"
        using q si1 si0 by (auto simp: nul_unit_def unit_char_def ascii_unit_def)
      from "1.IH"(1) [OF _ q si2 _ rec] si di "1.prems"(2)
      have "length ser' = 256"
        and "take di' ser' = take (di + 1) (ser[di := 0x3F])
               @ decode_units (drop (di + 1) (descriptor_units data))"
        by simp_all
      then show ?thesis using dl nn uc
        by (simp add: dr decode_units_Cons take_Suc_conv_app_nth)
    next
      case z
      then have "deunicode_loop data ser di si = (ser, di)"
        using si di by (subst deunicode_loop.simps) simp
      with "1.prems"(3) have e: "ser' = ser" "di' = di" by simp_all
      have nu: "nul_unit ?u" using z si1 si0 by (simp add: nul_unit_def)
      have "decode_units (drop di (descriptor_units data)) = []"
        unfolding dr using nu by (simp add: decode_units_Cons)
      with e "1.prems"(2) show ?thesis by simp
    next
      case a
      then have rec: "deunicode_loop data (ser[di := data ! si]) (di + 1) (si + 2) = (ser', di')"
        using "1.prems"(3) si di by (subst (asm) deunicode_loop.simps) simp
      have nn: "\<not> nul_unit ?u" and uc: "unit_char ?u = data ! si"
        using a si1 si0 by (auto simp: nul_unit_def unit_char_def ascii_unit_def)
      from "1.IH"(2) [OF _ a(1) a(2) si2 _ rec] si di "1.prems"(2)
      have "length ser' = 256"
        and "take di' ser' = take (di + 1) (ser[di := data ! si])
               @ decode_units (drop (di + 1) (descriptor_units data))"
        by simp_all
      then show ?thesis using dl nn uc
        by (simp add: dr decode_units_Cons take_Suc_conv_app_nth)
    qed
  qed
qed

lemma unit_char_nonzero: "\<not> nul_unit u \<Longrightarrow> unit_char u \<noteq> 0"
  by (cases u) (auto simp: nul_unit_def unit_char_def ascii_unit_def)

lemma decode_units_nonzero: "0 \<notin> set (decode_units us)"
proof
  assume "0 \<in> set (decode_units us)"
  then obtain u where "u \<in> set (takeWhile (\<lambda>u. \<not> nul_unit u) us)" "unit_char u = 0"
    by (auto simp: decode_units_def)
  then show False using unit_char_nonzero [of u] by (auto dest: set_takeWhileD)
qed

lemma length_decode_units: "length (decode_units (descriptor_units data)) \<le> 127"
proof -
  have "length (decode_units (descriptor_units data)) \<le> length (descriptor_units data)"
    unfolding decode_units_def length_map by (rule length_takeWhile_le)
  also have "\<dots> = (unat (data ! 0) - 1) div 2" by (simp add: descriptor_units_def)
  also have "\<dots> \<le> 127" using unsigned_less [of "data ! 0", where 'a = nat] by simp
  finally show ?thesis .
qed

lemma serial_decoding_eq: "serial_decoding data = decode_units (descriptor_units data)"
  using length_decode_units [of data] by (simp add: serial_decoding_def)

lemma c_str_prefix: "0 \<notin> set xs \<Longrightarrow> c_str (xs @ 0 # rest) = xs"
  by (induction xs) (simp_all add: c_str_def)

lemma deunicode_spec:
  assumes len: "length ser = 256" and d: "deunicode data ser = (ser', di)"
  shows "di = length (serial_decoding data)" and "length ser' = 256" and "di < 128"
    and "ser' = serial_decoding data @ 0 # drop (Suc di) ser'"
proof -
  obtain ser1 where l: "deunicode_loop data ser 0 2 = (ser1, di)" and s: "ser' = ser1[di := 0]"
    using d by (auto simp: deunicode_def split: prod.splits)
  from deunicode_loop_spec [OF _ len l]
  have l1: "length ser1 = 256" and t: "take di ser1 = serial_decoding data"
    by (simp_all add: serial_decoding_eq)
  from t have "length (take di ser1) = length (serial_decoding data)" by simp
  then have "min 256 di = length (serial_decoding data)" using l1 by simp
  moreover have "length (serial_decoding data) \<le> 127"
    using length_decode_units [of data] by (simp add: serial_decoding_eq)
  ultimately have di: "di = length (serial_decoding data)" "di < 128" by simp_all
  from di l1 s have "ser' = take di ser' @ ser' ! di # drop (Suc di) ser'"
    by (intro id_take_nth_drop) simp
  moreover from di l1 s t have "take di ser' = serial_decoding data" "ser' ! di = 0" by simp_all
  ultimately show "ser' = serial_decoding data @ 0 # drop (Suc di) ser'" by simp
  from di show "di = length (serial_decoding data)" and "di < 128" .
  from l1 s show "length ser' = 256" by simp
qed

text \<open>
  C7. With \<open>serial\<close> the 256-byte array and the descriptor inside \<open>data\<close>, the string the
  loop leaves in the array is the decoding the specification describes: the 2-byte units
  after the 2-byte header, up to the first NUL unit, each one its low byte when the high
  byte is zero and the low byte's high bit is clear, and \<open>?\<close> otherwise, in the same
  position. \<open>di\<close> is its length, which is at most 255.
\<close>

theorem deunicode_decodes:
  assumes "length ser = 256" and "unat (data ! 0) < length data"
  shows "c_str (fst (deunicode data ser)) = serial_decoding data
       \<and> snd (deunicode data ser) = length (serial_decoding data)
       \<and> length (serial_decoding data) \<le> 255"
proof -
  obtain ser' di where d: "deunicode data ser = (ser', di)" by (cases "deunicode data ser")
  note di = deunicode_spec(1) [OF assms(1) d]
  note e = deunicode_spec(4) [OF assms(1) d]
  have "0 \<notin> set (serial_decoding data)"
    unfolding serial_decoding_eq by (rule decode_units_nonzero)
  then have "c_str (serial_decoding data @ 0 # drop (Suc di) ser') = serial_decoding data"
    by (rule c_str_prefix)
  with e have "c_str ser' = serial_decoding data" by simp
  moreover have "length (serial_decoding data) \<le> 255" by (simp add: serial_decoding_def)
  ultimately show ?thesis using d di by simp
qed

text \<open>
  A descriptor with the units \<open>A\<close>, \<open>0x00E9\<close>, \<open>0x0142\<close>, \<open>C\<close>, NUL, \<open>D\<close>: the two non-ASCII
  units become \<open>?\<close> in place, and the NUL unit ends the string.
\<close>

theorem deunicode_decodes_witness:
  "length (replicate 256 (0::u8)) = 256
   \<and> unat (string_descriptor [0x41, 0, 0xE9, 0, 0x42, 0x01, 0x43, 0, 0, 0, 0x44, 0] ! 0)
       < length (string_descriptor [0x41, 0, 0xE9, 0, 0x42, 0x01, 0x43, 0, 0, 0, 0x44, 0])
   \<and> c_str (fst (deunicode
        (string_descriptor [0x41, 0, 0xE9, 0, 0x42, 0x01, 0x43, 0, 0, 0, 0x44, 0])
        (replicate 256 0))) = ascii ''A??C''"
proof -
  have a: "length (replicate 256 (0::u8)) = 256" by simp
  have b: "unat (string_descriptor [0x41, 0, 0xE9, 0, 0x42, 0x01, 0x43, 0, 0, 0, 0x44, 0] ! 0)
       < length (string_descriptor [0x41, 0, 0xE9, 0, 0x42, 0x01, 0x43, 0, 0, 0, 0x44, 0])"
    by code_simp
  have c: "serial_decoding (string_descriptor [0x41, 0, 0xE9, 0, 0x42, 0x01, 0x43, 0, 0, 0, 0x44, 0])
             = ascii ''A??C''"
    by code_simp
  from deunicode_decodes [OF a b] a b c show ?thesis by simp
qed

lemma udid_hyphen_24:
  assumes s: "length s = 24" and r: "rest = r # rs"
  shows "udid_hyphen (s @ 0 # rest) 24 = (take 8 s @ [0x2D] @ drop 8 s) @ 0 # rs"
proof -
  have t9: "take 9 s = take 8 s @ [s ! 8]"
    using s take_Suc_conv_app_nth [of 8 s] by simp
  have "memmove (s @ 0 # rest) 9 8 16 = take 8 s @ [s ! 8] @ drop 8 s @ rest"
    using s by (simp add: memmove_def t9)
  then have "(memmove (s @ 0 # rest) 9 8 16)[8 := 0x2D] = take 8 s @ [0x2D] @ drop 8 s @ rest"
    using s by (simp add: list_update_append)
  then have "((memmove (s @ 0 # rest) 9 8 16)[8 := 0x2D])[25 := 0]
               = take 8 s @ [0x2D] @ drop 8 s @ 0 # rs"
    using s r by (simp add: list_update_append)
  then show ?thesis by (simp add: udid_hyphen_def)
qed

text \<open>
  C6. When the decoded serial has exactly 24 characters, the string stored in
  \<open>usbdev->serial\<close> is its first 8 characters, a hyphen, and its last 16: 25 characters,
  and deleting the one at index 8 gives the decoded serial back. A decoded serial of any
  other length is stored as it is.
\<close>

theorem udid_hyphenation:
  assumes len: "length (serial usbdev) = 256" and inb: "unat (data ! 0) < length data"
  shows "(length (serial_decoding data) = 24 \<longrightarrow>
            c_str (serial (get_serial_callback_serial LIBUSB_TRANSFER_COMPLETED data usbdev))
              = take 8 (serial_decoding data) @ [0x2D] @ drop 8 (serial_decoding data)
          \<and> length (c_str (serial
                (get_serial_callback_serial LIBUSB_TRANSFER_COMPLETED data usbdev))) = 25
          \<and> take 8 (c_str (serial
                (get_serial_callback_serial LIBUSB_TRANSFER_COMPLETED data usbdev)))
              @ drop 9 (c_str (serial
                (get_serial_callback_serial LIBUSB_TRANSFER_COMPLETED data usbdev)))
              = serial_decoding data)
       \<and> (length (serial_decoding data) \<noteq> 24 \<longrightarrow>
            c_str (serial (get_serial_callback_serial LIBUSB_TRANSFER_COMPLETED data usbdev))
              = serial_decoding data)"
proof -
  let ?s = "serial_decoding data"
  let ?stored = "serial (get_serial_callback_serial LIBUSB_TRANSFER_COMPLETED data usbdev)"
  obtain ser' di where d: "deunicode data (serial usbdev) = (ser', di)"
    by (cases "deunicode data (serial usbdev)")
  note di = deunicode_spec(1) [OF len d]
  note l' = deunicode_spec(2) [OF len d]
  note e = deunicode_spec(4) [OF len d]
  have nz: "0 \<notin> set ?s" unfolding serial_decoding_eq by (rule decode_units_nonzero)
  have st: "?stored = udid_hyphen ser' di"
    using d by (simp add: get_serial_callback_serial_def)
  show ?thesis
  proof (cases "length ?s = 24")
    case False
    with di have "udid_hyphen ser' di = ser'" by (simp add: udid_hyphen_def)
    moreover have "c_str (?s @ 0 # drop (Suc di) ser') = ?s" using nz by (rule c_str_prefix)
    with e have "c_str ser' = ?s" by simp
    ultimately show ?thesis using False st by simp
  next
    case True
    with di have di24: "di = 24" by simp
    have "length (drop (Suc di) ser') = 231" using l' di24 by simp
    then obtain r rs where r: "drop (Suc di) ser' = r # rs"
      by (cases "drop (Suc di) ser'") simp_all
    have "udid_hyphen (?s @ 0 # drop (Suc di) ser') 24
            = (take 8 ?s @ [0x2D] @ drop 8 ?s) @ 0 # rs"
      using True r by (rule udid_hyphen_24)
    with e di24 have u: "udid_hyphen ser' di = (take 8 ?s @ [0x2D] @ drop 8 ?s) @ 0 # rs"
      by simp
    have "0 \<notin> set (take 8 ?s @ [0x2D] @ drop 8 ?s)"
      using nz by (auto dest: in_set_takeD in_set_dropD)
    then have "c_str ((take 8 ?s @ [0x2D] @ drop 8 ?s) @ 0 # rs)
                 = take 8 ?s @ [0x2D] @ drop 8 ?s"
      by (rule c_str_prefix)
    with u st have c: "c_str ?stored = take 8 ?s @ [0x2D] @ drop 8 ?s" by simp
    show ?thesis unfolding c using True by simp
  qed
qed

text \<open>
  The 24-character serial \<open>00008030000A1B2C3D4E5F60\<close> is stored with the hyphen, the
  40-character serial of an older device unchanged.
\<close>

theorem udid_hyphenation_witness:
  "length (serial example_usbdev) = 256
   \<and> unat (string_descriptor (utf16le ''00008030000A1B2C3D4E5F60'') ! 0)
       < length (string_descriptor (utf16le ''00008030000A1B2C3D4E5F60''))
   \<and> length (serial_decoding (string_descriptor (utf16le ''00008030000A1B2C3D4E5F60''))) = 24
   \<and> c_str (serial (get_serial_callback_serial LIBUSB_TRANSFER_COMPLETED
        (string_descriptor (utf16le ''00008030000A1B2C3D4E5F60'')) example_usbdev))
       = ascii ''00008030-000A1B2C3D4E5F60''
   \<and> c_str (serial (get_serial_callback_serial LIBUSB_TRANSFER_COMPLETED
        (string_descriptor (utf16le ''3f2a9c41d07b5e8864a1c0ffee0123456789abcd'')) example_usbdev))
       = ascii ''3f2a9c41d07b5e8864a1c0ffee0123456789abcd''"
proof -
  let ?d = "string_descriptor (utf16le ''00008030000A1B2C3D4E5F60'')"
  let ?o = "string_descriptor (utf16le ''3f2a9c41d07b5e8864a1c0ffee0123456789abcd'')"
  have a: "length (serial example_usbdev) = 256" by (simp add: example_usbdev_def)
  have b: "unat (?d ! 0) < length ?d" by code_simp
  have b': "unat (?o ! 0) < length ?o" by code_simp
  have c: "serial_decoding ?d = ascii ''00008030000A1B2C3D4E5F60''" by code_simp
  have c': "serial_decoding ?o = ascii ''3f2a9c41d07b5e8864a1c0ffee0123456789abcd''" by code_simp
  have n: "length (ascii ''00008030000A1B2C3D4E5F60'') = 24" by code_simp
  have n': "length (ascii ''3f2a9c41d07b5e8864a1c0ffee0123456789abcd'') \<noteq> 24" by code_simp
  have h: "take 8 (ascii ''00008030000A1B2C3D4E5F60'') @ [0x2D]
             @ drop 8 (ascii ''00008030000A1B2C3D4E5F60'') = ascii ''00008030-000A1B2C3D4E5F60''"
    by code_simp
  from udid_hyphenation [OF a b] udid_hyphenation [OF a b'] a b c c' n n' h
  show ?thesis by simp
qed

section \<open>guess\_mode\<close>

lemma guess_mode_flags_foldl:
  "foldl (guess_mode_flags h) (v, c, m) intfs =
     (v \<or> (\<exists>i \<in> set intfs. valeria_interface h i),
      c \<or> (\<exists>i \<in> set intfs. cdc_ncm_interface i),
      m \<or> (\<exists>i \<in> set intfs. usbmux_interface h i))"
proof (induction intfs arbitrary: v c m)
  case Nil
  show ?case by simp
next
  case (Cons i intfs)
  have "guess_mode_flags h (v, c, m) i =
          (v \<or> valeria_interface h i, c \<or> cdc_ncm_interface i, m \<or> usbmux_interface h i)"
    unfolding guess_mode_flags_def valeria_interface_def cdc_ncm_interface_def
      usbmux_interface_def
    by (simp only: prod.case if_True if_False split: if_split) blast
  then show ?case by (simp add: Cons.IH disj_assoc)
qed

text \<open>
  C5, as the code has it. \<open>guess_mode\<close> depends on \<open>bNumConfigurations\<close> alone except for 5
  configurations: 1 gives 5 (cdc-ncm direct); 0, 2, 3 and 4 give 1 (initial); 6 gives 4
  (usbeth+cdc-ncm); 7 and more give 0 (undetermined). With 5 configurations it is 0 when
  configuration 5 cannot be read; otherwise 2 (valeria) when configuration 5 has a
  multiplexer interface and an interface of class \<open>INTERFACE_CLASS\<close>, subclass 42, protocol
  255; else 3 (cdc-ncm) when it has a multiplexer interface and an interface of class 2,
  subclass \<open>0x0d\<close>; else 0.
\<close>

theorem guess_mode_table:
  "guess_mode h dev usbdev =
     (let n = unat (bNumConfigurations (devdesc usbdev))
      in if n = 1 then 5
         else if n = 0 \<or> (2 \<le> n \<and> n \<le> 4) then 1
         else if n = 6 then 4
         else if n = 5 then
           (case get_config_descriptor_by_value dev 5 of
              None \<Rightarrow> 0
            | Some config \<Rightarrow>
                if (\<exists>i \<in> set (cfg_interface config). valeria_interface h i)
                   \<and> (\<exists>i \<in> set (cfg_interface config). usbmux_interface h i) then 2
                else if (\<exists>i \<in> set (cfg_interface config). cdc_ncm_interface i)
                   \<and> (\<exists>i \<in> set (cfg_interface config). usbmux_interface h i) then 3
                else 0)
         else 0)"
proof -
  let ?b = "bNumConfigurations (devdesc usbdev)"
  have e1: "(?b = 1) = (unat ?b = 1)" by (simp add: word_unat_eq_iff)
  have e4: "(?b \<le> 4) = (unat ?b \<le> 4)" by (simp add: word_le_nat_alt)
  have e6: "(?b = 6) = (unat ?b = 6)" by (simp add: word_unat_eq_iff)
  have e5: "(?b = 5) = (unat ?b = 5)" by (simp add: word_unat_eq_iff)
  show ?thesis
    unfolding guess_mode_def Let_def e1 e4 e6 e5
    by (auto simp: guess_mode_flags_foldl split: option.splits)
qed

text \<open>
  Five configurations with a PTP, a multiplexer and a Valeria interface in configuration 5
  are valeria; with a CDC-NCM interface in place of Valeria, cdc-ncm.
\<close>

theorem guess_mode_table_witness:
  "guess_mode upstream_usb_h
     (example_device 5 (config_5 [ptp_intf, usbmux_intf, valeria_intf])) (example_usbdev_n 5) = 2
   \<and> guess_mode upstream_usb_h
     (example_device 5 (config_5 [ptp_intf, usbmux_intf, cdc_ncm_intf])) (example_usbdev_n 5) = 3"
  using guess_mode_table [of upstream_usb_h
          "example_device 5 (config_5 [ptp_intf, usbmux_intf, valeria_intf])" "example_usbdev_n 5"]
    guess_mode_table [of upstream_usb_h
          "example_device 5 (config_5 [ptp_intf, usbmux_intf, cdc_ncm_intf])" "example_usbdev_n 5"]
  by (simp add: example_device_def example_usbdev_n_def example_usbdev_def example_devdesc_def
      config_5_def ptp_intf_def usbmux_intf_def valeria_intf_def cdc_ncm_intf_def
      upstream_usb_h_def valeria_interface_def usbmux_interface_def cdc_ncm_interface_def)

text \<open>
  C5 as stated fails for a descriptor with \<open>bNumConfigurations = 0\<close>, a count outside the
  table: the result is 1 (initial), not 0 (undetermined).
\<close>

theorem guess_mode_zero_configurations_counterexample:
  "guess_mode upstream_usb_h (example_device 0 no_configs) (example_usbdev_n 0) = 1"
  by (simp add: guess_mode_def example_usbdev_n_def example_usbdev_def)

section \<open>The mode callbacks\<close>

text \<open>
  \<open>set_valid_configuration\<close> changes the library state only by the calls it makes on the
  handle, starting with \<open>libusb_get_configuration\<close>.
\<close>

lemma detach_kernel_drivers_calls:
  "\<exists>cs. detach_kernel_drivers dev intfs l = l\<lparr>calls := calls l @ cs\<rparr>"
proof (induction intfs arbitrary: l)
  case Nil
  show ?case by (intro exI [of _ "[]"]) simp
next
  case (Cons i intfs)
  let ?l1 = "log_call (Kernel_driver_active (bInterfaceNumber i)) l"
  let ?l2 = "log_call (Detach_kernel_driver (bInterfaceNumber i)) ?l1"
  from Cons.IH [of ?l1] obtain cs1
    where a: "detach_kernel_drivers dev intfs ?l1 = ?l1\<lparr>calls := calls ?l1 @ cs1\<rparr>" by blast
  from Cons.IH [of ?l2] obtain cs2
    where b: "detach_kernel_drivers dev intfs ?l2 = ?l2\<lparr>calls := calls ?l2 @ cs2\<rparr>" by blast
  show ?case
  proof (cases "kernel_driver_active dev (bInterfaceNumber i) = 1")
    case True
    then have "detach_kernel_drivers dev (i # intfs) l =
      l\<lparr>calls := calls l @ (Kernel_driver_active (bInterfaceNumber i) # Detach_kernel_driver (bInterfaceNumber i) # cs2)\<rparr>"
      using b by (simp add: Let_def log_call_def)
    then show ?thesis by blast
  next
    case False
    then have "detach_kernel_drivers dev (i # intfs) l =
      l\<lparr>calls := calls l @ (Kernel_driver_active (bInterfaceNumber i) # cs1)\<rparr>"
      using a by (simp add: Let_def log_call_def)
    then show ?thesis by blast
  qed
qed

lemma configuration_loop_calls:
  "configuration_loop j h dev cur (f, u, l) = (f', u', l') \<Longrightarrow>
     \<exists>cs. l' = l\<lparr>calls := calls l @ cs\<rparr>"
proof (induction j arbitrary: f u l)
  case 0
  then have "l' = l\<lparr>calls := calls l @ []\<rparr>" by simp
  then show ?case by blast
next
  case (Suc j)
  show ?case
  proof (cases "get_config_descriptor_by_value dev (of_nat (Suc j))")
    case None
    with Suc.prems have "configuration_loop j h dev cur (f, u, l) = (f', u', l')" by simp
    then show ?thesis by (rule Suc.IH)
  next
    case (Some config)
    obtain f1 u1 where fi: "find_interface h (cfg_interface config) (f, u) = (f1, u1)"
      by (cases "find_interface h (cfg_interface config) (f, u)")
    obtain cs1 where d: "detach_kernel_drivers dev (cfg_interface config) l = l\<lparr>calls := calls l @ cs1\<rparr>"
      using detach_kernel_drivers_calls by blast
    let ?l2 = "l\<lparr>calls := calls l @ cs1 @ [Set_configuration (int (Suc j))]\<rparr>"
    have l2: "log_call (Set_configuration (int (Suc j))) (detach_kernel_drivers dev (cfg_interface config) l) = ?l2"
      by (simp add: d log_call_def)
    consider (nf) "\<not> f1"
      | (same) "f1" "\<not> (cur = 0 \<or> uint (bConfigurationValue config) \<noteq> cur)"
      | (fail) "f1" "cur = 0 \<or> uint (bConfigurationValue config) \<noteq> cur" "set_configuration dev (int (Suc j)) \<noteq> 0"
      | (ok) "f1" "cur = 0 \<or> uint (bConfigurationValue config) \<noteq> cur" "set_configuration dev (int (Suc j)) = 0"
      by blast
    then show ?thesis
    proof cases
      case nf
      with Suc.prems Some fi have "configuration_loop j h dev cur (f1, u1, l) = (f', u', l')" by simp
      then show ?thesis by (rule Suc.IH)
    next
      case same
      with Suc.prems Some fi have "l' = l\<lparr>calls := calls l @ []\<rparr>" by simp
      then show ?thesis by blast
    next
      case fail
      with Suc.prems Some fi have "configuration_loop j h dev cur (f1, u1, ?l2) = (f', u', l')"
        using l2 by (simp add: Let_def)
      from Suc.IH [OF this] obtain cs where "l' = ?l2\<lparr>calls := calls ?l2 @ cs\<rparr>" by blast
      then have "l' = l\<lparr>calls := calls l @ (cs1 @ Set_configuration (int (Suc j)) # cs)\<rparr>" by simp
      then show ?thesis by blast
    next
      case ok
      with Suc.prems Some fi have "l' = ?l2" using l2 by (simp add: Let_def)
      then show ?thesis by blast
    qed
  qed
qed

lemma set_valid_configuration_calls:
  assumes "set_valid_configuration h dev u l = (res, u', l')"
  shows "\<exists>cs. l' = l\<lparr>calls := calls l @ Get_configuration # cs\<rparr>"
proof -
  let ?l1 = "l\<lparr>calls := calls l @ [Get_configuration]\<rparr>"
  obtain r cur where g: "get_configuration dev = (r, cur)" by (cases "get_configuration dev")
  show ?thesis
  proof (cases "r \<noteq> 0")
    case True
    with assms g have "l' = l\<lparr>calls := calls l @ Get_configuration # []\<rparr>"
      by (simp add: set_valid_configuration_def log_call_def)
    then show ?thesis by blast
  next
    case False
    obtain f1 u1 l1 where cl: "configuration_loop (unat (bNumConfigurations (devdesc u))) h dev cur (False, u, ?l1) = (f1, u1, l1)"
      by (cases "configuration_loop (unat (bNumConfigurations (devdesc u))) h dev cur (False, u, ?l1)")
    from configuration_loop_calls [OF cl] obtain cs where "l1 = ?l1\<lparr>calls := calls ?l1 @ cs\<rparr>" by blast
    then have l1: "l1 = l\<lparr>calls := calls l @ Get_configuration # cs\<rparr>" by simp
    from assms g False cl have "l' = l1"
      by (auto simp: set_valid_configuration_def log_call_def split: if_splits)
    with l1 show ?thesis by blast
  qed
qed

lemma device_complete_initialization_lib:
  assumes found: "find_device (uint (ctx_bus context)) (uint (ctx_address context)) (device_list c) = Some i"
  shows "\<exists>cs. calls (lib (device_complete_initialization h context hdl c))
                 = calls (lib c) @ Get_configuration # cs"
    and "mode_switches (lib (device_complete_initialization h context hdl c)) = mode_switches (lib c)"
proof -
  obtain res u l1 where sv: "set_valid_configuration h (ctx_dev context) (device_list c ! i) (lib c) = (res, u, l1)"
    by (cases "set_valid_configuration h (ctx_dev context) (device_list c ! i) (lib c)")
  from set_valid_configuration_calls [OF sv] obtain cs
    where l1: "l1 = (lib c)\<lparr>calls := calls (lib c) @ Get_configuration # cs\<rparr>" by blast
  have "calls (lib (device_complete_initialization h context hdl c))
          = calls (lib c) @ Get_configuration # cs
        \<or> calls (lib (device_complete_initialization h context hdl c))
          = calls (lib c) @ Get_configuration # cs @ [Claim_interface (interface u)]"
    using found sv
    by (simp add: device_complete_initialization_def l1 Let_def mark_dead_def log_call_def
        libusb_alloc_transfer_def libusb_submit_transfer_def libusb_free_transfer_def
        split: list.splits)
  then show "\<exists>cs. calls (lib (device_complete_initialization h context hdl c))
                 = calls (lib c) @ Get_configuration # cs" by auto
  show "mode_switches (lib (device_complete_initialization h context hdl c)) = mode_switches (lib c)"
    using found sv
    by (simp add: device_complete_initialization_def l1 Let_def mark_dead_def log_call_def
        libusb_alloc_transfer_def libusb_submit_transfer_def libusb_free_transfer_def
        libusb_fill_control_transfer_def mode_switches_def
        split: list.splits)
qed

lemma device_complete_initialization_mode_switches:
  "mode_switches (lib (device_complete_initialization h context hdl c)) = mode_switches (lib c)"
proof (cases "find_device (uint (ctx_bus context)) (uint (ctx_address context)) (device_list c)")
  case None
  then show ?thesis by (simp add: device_complete_initialization_def)
next
  case (Some i)
  then show ?thesis by (rule device_complete_initialization_lib(2))
qed

lemma submit_accepted:
  "set (take 1 (submit_results l)) \<subseteq> {0} \<Longrightarrow>
   libusb_submit_transfer x l =
     (0, l\<lparr>submit_results := tl (submit_results l), submitted := submitted l @ [x]\<rparr>)"
  by (cases l; cases "submit_results l") (auto simp: libusb_submit_transfer_def)

text \<open>
  C2, as the code has it. For a device in the list whose descriptor has
  \<open>bNumConfigurations = 1\<close>, after a completed GET\_MODE transfer (allocations succeeding,
  libusb accepting the next submission): the guessed mode is 5 (cdc-ncm direct). When the
  desired mode is 1, 2, 3 or 4, which includes the default when the environment variable
  is not set, \<open>get_mode_cb\<close> submits SET\_MODE with \<open>wIndex\<close> the desired mode and does
  nothing else. Only when the desired mode is 5 or outside 1..5 is no mode switch
  submitted; initialization then continues in \<open>device_complete_initialization\<close>.
\<close>

theorem get_mode_cb_single_configuration:
  assumes found: "find_device (uint (ctx_bus (user_data t))) (uint (ctx_address (user_data t)))
                    (device_list c) = Some i"
    and one: "bNumConfigurations (devdesc (device_list c ! i)) = 1"
    and completed: "status t = LIBUSB_TRANSFER_COMPLETED"
    and mem: "\<not> alloc_transfer_null (lib c)" "\<not> malloc_null (lib c)"
    and accepted: "set (take 1 (submit_results (lib c))) \<subseteq> {0}"
  shows "guess_mode h (ctx_dev (user_data t)) (device_list c ! i) = 5
    \<and> (1 \<le> desired_mode env \<and> desired_mode env \<le> 4 \<longrightarrow>
         get_mode_cb h env t c =
           Some (c\<lparr>lib := (lib c)
                   \<lparr>next_xfer := Suc (next_xfer (lib c)),
                    submit_results := tl (submit_results (lib c)),
                    submitted := submitted (lib c)
                      @ [set_mode_transfer h t (desired_mode env) (lib c)]\<rparr>\<rparr>))
    \<and> (\<not> (1 \<le> desired_mode env \<and> desired_mode env \<le> 4) \<longrightarrow>
         get_mode_cb h env t c
           = Some (device_complete_initialization h (user_data t) (dev_handle t) c)
         \<and> mode_switches (lib (device_complete_initialization h (user_data t) (dev_handle t) c))
           = mode_switches (lib c))"
proof -
  have g: "guess_mode h (ctx_dev (user_data t)) (device_list c ! i) = 5"
    using one by (simp add: guess_mode_def)
  let ?l1 = "(lib c)\<lparr>next_xfer := Suc (next_xfer (lib c))\<rparr>"
  have acc: "set (take 1 (submit_results ?l1)) \<subseteq> {0}" using accepted by simp
  have sw: "1 \<le> desired_mode env \<and> desired_mode env \<le> 4 \<Longrightarrow>
         get_mode_cb h env t c =
           Some (c\<lparr>lib := (lib c)
                   \<lparr>next_xfer := Suc (next_xfer (lib c)),
                    submit_results := tl (submit_results (lib c)),
                    submitted := submitted (lib c)
                      @ [set_mode_transfer h t (desired_mode env) (lib c)]\<rparr>\<rparr>)"
    using found completed mem g
    by (simp add: get_mode_cb_def Let_def desired_mode_def [symmetric] submit_vendor_specific_def
        libusb_alloc_transfer_def submit_accepted [OF acc] malloc_def
        libusb_fill_control_transfer_def set_mode_transfer_def
        LIBUSB_REQUEST_TYPE_VENDOR_def LIBUSB_ENDPOINT_IN_def LIBUSB_RECIPIENT_DEVICE_def
        LIBUSB_CONTROL_SETUP_SIZE_def)
  have nsw: "\<not> (1 \<le> desired_mode env \<and> desired_mode env \<le> 4) \<Longrightarrow>
         get_mode_cb h env t c
           = Some (device_complete_initialization h (user_data t) (dev_handle t) c)"
    using found completed g
    by (auto simp: get_mode_cb_def Let_def desired_mode_def [symmetric])
  from g sw nsw show ?thesis
    by (simp add: device_complete_initialization_mode_switches)
qed


text \<open>
  The single-configuration device with the variable set to \<open>2\<close> (a switch to mode 2 is
  submitted) and set to \<open>5\<close> (no switch; the one call made is
  \<open>libusb_get_configuration\<close>).
\<close>

theorem get_mode_cb_single_configuration_witness:
  "get_mode_cb upstream_usb_h (Some ''2'')
       (example_completion (example_device 1 no_configs) [5, 3, 3, 0]) (example_core 1)
     = Some ((example_core 1)\<lparr>lib := idle_libusb
         \<lparr>next_xfer := 1,
          submitted := [set_mode_transfer upstream_usb_h
             (example_completion (example_device 1 no_configs) [5, 3, 3, 0]) 2 idle_libusb]\<rparr>\<rparr>)
   \<and> map_option (\<lambda>c. (mode_switches (lib c), calls (lib c)))
       (get_mode_cb upstream_usb_h (Some ''5'')
          (example_completion (example_device 1 no_configs) [5, 3, 3, 0]) (example_core 1))
     = Some ([], [Get_configuration])"
proof -
  let ?t = "example_completion (example_device 1 no_configs) [5, 3, 3, 0]"
  have found: "find_device (uint (ctx_bus (user_data ?t))) (uint (ctx_address (user_data ?t)))
                 (device_list (example_core 1)) = Some 0"
    by (simp add: example_completion_def example_context_def example_core_def
        example_usbdev_n_def example_usbdev_def)
  have one: "bNumConfigurations (devdesc (device_list (example_core 1) ! 0)) = 1"
    by (simp add: example_core_def example_usbdev_n_def example_usbdev_def)
  have completed: "status ?t = LIBUSB_TRANSFER_COMPLETED" by (simp add: example_completion_def)
  have mem: "\<not> alloc_transfer_null (lib (example_core 1))" "\<not> malloc_null (lib (example_core 1))"
    by (simp_all add: example_core_def idle_libusb_def)
  have accepted: "set (take 1 (submit_results (lib (example_core 1)))) \<subseteq> {0}"
    by (simp add: example_core_def idle_libusb_def)
  have d2: "desired_mode (Some ''2'') = 2" by code_simp
  have d5: "desired_mode (Some ''5'') = 5" by code_simp
  have cs: "calls (lib (device_complete_initialization upstream_usb_h (user_data ?t)
              (dev_handle ?t) (example_core 1))) = [Get_configuration]"
    by code_simp
  have ms: "mode_switches (lib (example_core 1)) = []"
    by (simp add: mode_switches_def example_core_def idle_libusb_def)
  from get_mode_cb_single_configuration
         [OF found one completed mem accepted, of upstream_usb_h "Some ''2''"]
       get_mode_cb_single_configuration
         [OF found one completed mem accepted, of upstream_usb_h "Some ''5''"]
       d2 d5 cs ms
  show ?thesis by (simp add: example_core_def idle_libusb_def)
qed

text \<open>
  C2 as stated fails under the default desired mode: for the single-configuration device
  with the variable unset, \<open>get_mode_cb\<close> submits SET\_MODE with \<open>wIndex = 1\<close>.
\<close>

theorem get_mode_cb_default_mode_counterexample:
  "get_mode_cb upstream_usb_h None
       (example_completion (example_device 1 no_configs) [5, 3, 3, 0]) (example_core 1)
     = Some ((example_core 1)\<lparr>lib := idle_libusb
         \<lparr>next_xfer := 1,
          submitted := [set_mode_transfer upstream_usb_h
             (example_completion (example_device 1 no_configs) [5, 3, 3, 0]) 1 idle_libusb]\<rparr>\<rparr>)"
  by (simp add: get_mode_cb_def guess_mode_def submit_vendor_specific_def Let_def
      libusb_alloc_transfer_def libusb_submit_transfer_def malloc_def
      libusb_fill_control_transfer_def set_mode_transfer_def
      LIBUSB_REQUEST_TYPE_VENDOR_def LIBUSB_ENDPOINT_IN_def LIBUSB_RECIPIENT_DEVICE_def
      LIBUSB_CONTROL_SETUP_SIZE_def example_completion_def example_context_def
      example_core_def example_usbdev_n_def example_usbdev_def example_devdesc_def
      example_device_def idle_libusb_def upstream_usb_h_def)

text \<open>
  C3, as the code has it. When the SET\_MODE transfer did not complete, or completed with
  a non-zero response byte, \<open>switch_mode_cb\<close> goes on to
  \<open>device_complete_initialization\<close>, whose first step for a device still in the list is
  configuration selection (it starts with \<open>libusb_get_configuration\<close>). When the transfer
  completed with response byte \<open>0x00\<close>, the callback changes nothing: no configuration is
  selected.
\<close>

theorem switch_mode_cb_continues:
  assumes found: "find_device (uint (ctx_bus (user_data t))) (uint (ctx_address (user_data t)))
                    (device_list c) = Some i"
  shows "(status t \<noteq> LIBUSB_TRANSFER_COMPLETED \<or> control_data t ! 0 \<noteq> 0 \<longrightarrow>
            switch_mode_cb h t c = device_complete_initialization h (user_data t) (dev_handle t) c
            \<and> (\<exists>cs. calls (lib (switch_mode_cb h t c)) = calls (lib c) @ Get_configuration # cs))
       \<and> (status t = LIBUSB_TRANSFER_COMPLETED \<and> control_data t ! 0 = 0 \<longrightarrow>
            switch_mode_cb h t c = c)"
proof -
  have "status t \<noteq> LIBUSB_TRANSFER_COMPLETED \<or> control_data t ! 0 \<noteq> 0 \<Longrightarrow>
          switch_mode_cb h t c = device_complete_initialization h (user_data t) (dev_handle t) c"
    by (auto simp: switch_mode_cb_def Let_def)
  moreover have "status t = LIBUSB_TRANSFER_COMPLETED \<and> control_data t ! 0 = 0 \<Longrightarrow>
          switch_mode_cb h t c = c"
    by (simp add: switch_mode_cb_def)
  ultimately show ?thesis
    using device_complete_initialization_lib(1) [OF found, of h "dev_handle t"] by auto
qed

text \<open>
  The Valeria device refusing the switch with response \<open>0x01\<close>: configuration 5 is
  selected and the multiplexer interface claimed. And accepting it with \<open>0x00\<close>: nothing.
\<close>

theorem switch_mode_cb_continues_witness:
  "find_device (uint (ctx_bus (user_data (example_completion valeria_device [1]))))
       (uint (ctx_address (user_data (example_completion valeria_device [1]))))
       (device_list (example_core 5)) = Some 0
   \<and> calls (lib (switch_mode_cb upstream_usb_h (example_completion valeria_device [1])
        (example_core 5)))
     = [Get_configuration, Kernel_driver_active 0, Kernel_driver_active 1,
        Kernel_driver_active 2, Set_configuration 5, Claim_interface 1]
   \<and> switch_mode_cb upstream_usb_h (example_completion valeria_device [0]) (example_core 5)
     = example_core 5"
proof -
  have f1: "find_device (uint (ctx_bus (user_data (example_completion valeria_device [1]))))
       (uint (ctx_address (user_data (example_completion valeria_device [1]))))
       (device_list (example_core 5)) = Some 0"
    by (simp add: example_completion_def example_context_def example_core_def
        example_usbdev_n_def example_usbdev_def)
  have f0: "find_device (uint (ctx_bus (user_data (example_completion valeria_device [0]))))
       (uint (ctx_address (user_data (example_completion valeria_device [0]))))
       (device_list (example_core 5)) = Some 0"
    by (simp add: example_completion_def example_context_def example_core_def
        example_usbdev_n_def example_usbdev_def)
  have cs: "calls (lib (device_complete_initialization upstream_usb_h
               (user_data (example_completion valeria_device [1]))
               (dev_handle (example_completion valeria_device [1])) (example_core 5)))
     = [Get_configuration, Kernel_driver_active 0, Kernel_driver_active 1,
        Kernel_driver_active 2, Set_configuration 5, Claim_interface 1]"
    by code_simp
  have s1: "status (example_completion valeria_device [1]) = LIBUSB_TRANSFER_COMPLETED"
    "control_data (example_completion valeria_device [1]) ! 0 \<noteq> 0"
    "status (example_completion valeria_device [0]) = LIBUSB_TRANSFER_COMPLETED"
    "control_data (example_completion valeria_device [0]) ! 0 = 0"
    by (simp_all add: example_completion_def)
  from switch_mode_cb_continues [OF f1, of upstream_usb_h]
       switch_mode_cb_continues [OF f0, of upstream_usb_h] f1 cs s1
  show ?thesis by simp
qed

text \<open>
  C3 as stated fails for the response \<open>0x00\<close>: after the callback the device list and the
  library are as before, and no call was made on the handle.
\<close>

theorem switch_mode_cb_accepted_counterexample:
  "switch_mode_cb upstream_usb_h (example_completion valeria_device [0]) (example_core 5)
     = example_core 5
   \<and> calls (lib (switch_mode_cb upstream_usb_h (example_completion valeria_device [0])
        (example_core 5))) = []"
  by (simp add: switch_mode_cb_def example_completion_def example_core_def idle_libusb_def)

section \<open>usb\_discover\<close>

lemma usb_discover_failure:
  "list_cnt fetched < 0 \<Longrightarrow>
   usb_discover h reap fetched now g c =
     Some (if 5 \<le> devlist_failures g then list_cnt fetched else 0,
           if 5 \<le> devlist_failures g then g\<lparr>devlist_failures := devlist_failures g + 1\<rparr>
           else g\<lparr>devlist_failures := devlist_failures g + 1, next_dev_poll_time := next_poll now\<rparr>,
           c)"
  by (simp add: usb_discover_def Let_def)

text \<open>
  \<open>n\<close> failing fetches in a row, starting with \<open>k\<close> failures counted: the calls return 0
  while the count is at most 5 and the error from then on.
\<close>

lemma failure_results_step:
  "replicate (min (Suc n) (5 - k)) (0::int) @ replicate (Suc n - (5 - k)) e =
     (if 5 \<le> k then e else 0)
       # (replicate (min n (5 - Suc k)) 0 @ replicate (n - (5 - Suc k)) e)"
proof (cases "5 \<le> k")
  case True
  then have "5 - k = 0" "5 - Suc k = 0" by simp_all
  with True show ?thesis by simp
next
  case False
  then have "5 - k = Suc (5 - Suc k)" by simp
  with False show ?thesis by simp
qed

lemma usb_discover_failures_from:
  "list_cnt fetched < 0 \<Longrightarrow> devlist_failures g = int k \<Longrightarrow>
   \<exists>g'. usb_discover_calls h reap (map (\<lambda>now. (fetched, now)) nows) g c =
          Some (replicate (min (length nows) (5 - k)) 0
                  @ replicate (length nows - (5 - k)) (list_cnt fetched), g', c)
        \<and> devlist_failures g' = int (k + length nows)"
proof (induction nows arbitrary: g k)
  case Nil
  then show ?case by simp
next
  case (Cons now nows)
  define g1 where "g1 =
    (if 5 \<le> devlist_failures g then g\<lparr>devlist_failures := devlist_failures g + 1\<rparr>
     else g\<lparr>devlist_failures := devlist_failures g + 1, next_dev_poll_time := next_poll now\<rparr>)"
  define res where "res = (if 5 \<le> devlist_failures g then list_cnt fetched else 0)"
  have g1: "devlist_failures g1 = int (Suc k)" using Cons.prems(2) by (simp add: g1_def)
  from Cons.IH [OF Cons.prems(1) g1] obtain g'
    where run: "usb_discover_calls h reap (map (\<lambda>now. (fetched, now)) nows) g1 c =
          Some (replicate (min (length nows) (5 - Suc k)) 0
                  @ replicate (length nows - (5 - Suc k)) (list_cnt fetched), g', c)"
      and cnt: "devlist_failures g' = int (Suc k + length nows)"
    by blast
  have step: "usb_discover h reap fetched now g c = Some (res, g1, c)"
    unfolding res_def g1_def by (rule usb_discover_failure [OF Cons.prems(1)])
  have r: "res = (if 5 \<le> k then list_cnt fetched else 0)"
    using Cons.prems(2) by (simp add: res_def)
  have "usb_discover_calls h reap (map (\<lambda>now. (fetched, now)) (now # nows)) g c =
          Some (res # (replicate (min (length nows) (5 - Suc k)) 0
                  @ replicate (length nows - (5 - Suc k)) (list_cnt fetched)), g', c)"
    by (simp only: list.map usb_discover_calls.simps step run option.case prod.case)
  also have "res # (replicate (min (length nows) (5 - Suc k)) 0
                  @ replicate (length nows - (5 - Suc k)) (list_cnt fetched))
      = replicate (min (length (now # nows)) (5 - k)) 0
                  @ replicate (length (now # nows) - (5 - k)) (list_cnt fetched)"
    unfolding r list.size(4) using failure_results_step [of "length nows" k "list_cnt fetched"]
    by simp
  finally have "usb_discover_calls h reap (map (\<lambda>now. (fetched, now)) (now # nows)) g c =
      Some (replicate (min (length (now # nows)) (5 - k)) 0
                  @ replicate (length (now # nows) - (5 - k)) (list_cnt fetched), g', c)" .
  moreover from cnt have "devlist_failures g' = int (k + length (now # nows))" by simp
  ultimately show ?case by blast
qed

text \<open>With memory available, \<open>usb_device_add\<close> returns, and memory stays available.\<close>

lemma usb_device_add_returns:
  assumes "\<not> alloc_transfer_null (lib c)" and "\<not> malloc_null (lib c)"
  shows "\<exists>res c'. usb_device_add h dev c = Some (res, c')
           \<and> \<not> alloc_transfer_null (lib c') \<and> \<not> malloc_null (lib c')"
  using assms
  by (auto simp: usb_device_add_def Let_def submit_vendor_specific_def
      libusb_alloc_transfer_def libusb_submit_transfer_def
      split: option.splits prod.splits list.splits)

lemma add_devices_returns:
  "\<not> alloc_transfer_null (lib c) \<Longrightarrow> \<not> malloc_null (lib c) \<Longrightarrow>
   \<exists>valid_count' c'. add_devices h devs (valid_count, c) = Some (valid_count', c')"
proof (induction devs arbitrary: valid_count c)
  case Nil
  show ?case by simp
next
  case (Cons dev devs)
  from usb_device_add_returns [OF Cons.prems, of h dev] obtain res c1
    where a: "usb_device_add h dev c = Some (res, c1)"
      and m: "\<not> alloc_transfer_null (lib c1)" "\<not> malloc_null (lib c1)" by blast
  from Cons.IH [OF m] a show ?case by simp
qed

text \<open>
  C4, as the code has it. A failing fetch increments the counter; the call returns the
  negative error, without rescheduling the poll, when the counter then exceeds 5, and
  otherwise returns 0 with the next poll scheduled. So, counted from zero, the first five
  consecutive failures return 0 and the sixth and later ones return the error. A
  successful fetch sets the counter to zero, and with memory available the call returns.
\<close>

theorem usb_discover_failure_count:
  "(list_cnt fetched < 0 \<longrightarrow>
      usb_discover h reap fetched now g c =
        Some (if devlist_failures g + 1 > 5 then list_cnt fetched else 0,
              if devlist_failures g + 1 > 5
              then g\<lparr>devlist_failures := devlist_failures g + 1\<rparr>
              else g\<lparr>devlist_failures := devlist_failures g + 1,
                     next_dev_poll_time := next_poll now\<rparr>,
              c))
   \<and> (list_cnt fetched < 0 \<and> devlist_failures g = 0 \<longrightarrow>
      (\<exists>g'. usb_discover_calls h reap (map (\<lambda>now. (fetched, now)) nows) g c =
               Some (replicate (min (length nows) 5) 0
                       @ replicate (length nows - 5) (list_cnt fetched), g', c)
             \<and> devlist_failures g' = int (length nows)))
   \<and> (\<not> list_cnt fetched < 0 \<longrightarrow>
      (\<forall>res g' c'. usb_discover h reap fetched now g c = Some (res, g', c')
          \<longrightarrow> devlist_failures g' = 0)
      \<and> (\<not> alloc_transfer_null (lib c) \<and> \<not> malloc_null (lib c)
          \<longrightarrow> (\<exists>res g' c'. usb_discover h reap fetched now g c = Some (res, g', c'))))"
proof (intro conjI impI)
  assume f: "list_cnt fetched < 0"
  have "(devlist_failures g + 1 > 5) = (5 \<le> devlist_failures g)" by arith
  with usb_discover_failure [OF f, of h reap now g c]
  show "usb_discover h reap fetched now g c =
        Some (if devlist_failures g + 1 > 5 then list_cnt fetched else 0,
              if devlist_failures g + 1 > 5
              then g\<lparr>devlist_failures := devlist_failures g + 1\<rparr>
              else g\<lparr>devlist_failures := devlist_failures g + 1,
                     next_dev_poll_time := next_poll now\<rparr>,
              c)"
    by simp
next
  assume "list_cnt fetched < 0 \<and> devlist_failures g = 0"
  then have f: "list_cnt fetched < 0" and z: "devlist_failures g = int 0" by simp_all
  from usb_discover_failures_from [OF f z, of h reap nows c]
  show "\<exists>g'. usb_discover_calls h reap (map (\<lambda>now. (fetched, now)) nows) g c =
               Some (replicate (min (length nows) 5) 0
                       @ replicate (length nows - 5) (list_cnt fetched), g', c)
             \<and> devlist_failures g' = int (length nows)"
    by simp
next
  assume s: "\<not> list_cnt fetched < 0"
  then show "\<forall>res g' c'. usb_discover h reap fetched now g c = Some (res, g', c')
          \<longrightarrow> devlist_failures g' = 0"
    by (auto simp: usb_discover_def Let_def split: option.splits)
next
  assume s: "\<not> list_cnt fetched < 0"
    and "\<not> alloc_transfer_null (lib c) \<and> \<not> malloc_null (lib c)"
  then have m: "\<not> alloc_transfer_null (lib (c\<lparr>device_list :=
                   map (\<lambda>usbdev. usbdev\<lparr>alive := 0\<rparr>) (device_list c)\<rparr>))"
    "\<not> malloc_null (lib (c\<lparr>device_list :=
                   map (\<lambda>usbdev. usbdev\<lparr>alive := 0\<rparr>) (device_list c)\<rparr>))"
    by simp_all
  from add_devices_returns [OF m, of h "list_devs fetched" 0] s
  show "\<exists>res g' c'. usb_discover h reap fetched now g c = Some (res, g', c')"
    by (auto simp: usb_discover_def Let_def)
qed

text \<open>
  Seven failing fetches in a row after \<open>usb_init\<close>: five calls return 0, the sixth and the
  seventh the error. Then a fetch that succeeds with an empty list, after six failures:
  the counter is back at zero.
\<close>

theorem usb_discover_failure_count_witness:
  "map_option fst (usb_discover_calls upstream_usb_h reap_nothing (replicate 7 failing_fetch)
       initial_globals (example_core 4))
     = Some [0, 0, 0, 0, 0, - 11, - 11]
   \<and> usb_discover upstream_usb_h reap_nothing (Device_list []) \<lparr>tv_sec = 100, tv_usec = 0\<rparr>
       (initial_globals\<lparr>devlist_failures := 6\<rparr>) (example_core 4)
     = Some (0, initial_globals\<lparr>devlist_failures := 0,
                  next_dev_poll_time := \<lparr>tv_sec = 101, tv_usec = 0\<rparr>\<rparr>,
             (example_core 4)\<lparr>device_list := [(example_usbdev_n 4)\<lparr>alive := 0\<rparr>]\<rparr>)"
proof -
  let ?now = "\<lparr>tv_sec = 100, tv_usec = 0\<rparr>"
  let ?nows = "[?now, ?now, ?now, ?now, ?now, ?now, ?now]"
  have f: "list_cnt (Device_list_error (- 11)) < 0" by (simp add: list_cnt_def)
  have z: "devlist_failures initial_globals = 0" by (simp add: initial_globals_def)
  have r7: "replicate 7 failing_fetch = map (\<lambda>now. (Device_list_error (- 11), now)) ?nows"
    by (simp add: failing_fetch_def eval_nat_numeral)
  have e7: "replicate (min (length ?nows) 5) (0::int) @ replicate (length ?nows - 5) (- 11)
              = [0, 0, 0, 0, 0, - 11, - 11]"
    by (simp add: eval_nat_numeral)
  have s: "\<not> list_cnt (Device_list []) < 0" by (simp add: list_cnt_def)
  have np: "next_poll ?now = \<lparr>tv_sec = 101, tv_usec = 0\<rparr>"
    by (simp add: next_poll_def DEVICE_POLL_TIME_def signed_divide_int_def
        signed_modulo_int_def)
  have e: "usb_discover upstream_usb_h reap_nothing (Device_list []) ?now
       (initial_globals\<lparr>devlist_failures := 6\<rparr>) (example_core 4)
     = Some (0, initial_globals\<lparr>devlist_failures := 0,
                  next_dev_poll_time := \<lparr>tv_sec = 101, tv_usec = 0\<rparr>\<rparr>,
             (example_core 4)\<lparr>device_list := [(example_usbdev_n 4)\<lparr>alive := 0\<rparr>]\<rparr>)"
    by (simp add: usb_discover_def list_cnt_def list_devs_def Let_def np
        reap_nothing_def example_core_def initial_globals_def)
  from usb_discover_failure_count
         [of "Device_list_error (- 11)" upstream_usb_h reap_nothing ?now initial_globals
             "example_core 4" ?nows] f z
  obtain g' where "usb_discover_calls upstream_usb_h reap_nothing
        (map (\<lambda>now. (Device_list_error (- 11), now)) ?nows) initial_globals (example_core 4)
      = Some (replicate (min (length ?nows) 5) 0
                @ replicate (length ?nows - 5) (list_cnt (Device_list_error (- 11))),
              g', example_core 4)"
    by blast
  then have seven: "map_option fst (usb_discover_calls upstream_usb_h reap_nothing
       (replicate 7 failing_fetch) initial_globals (example_core 4))
     = Some [0, 0, 0, 0, 0, - 11, - 11]"
    unfolding r7 using e7 by (simp add: list_cnt_def)
  from usb_discover_failure_count
         [of "Device_list []" upstream_usb_h reap_nothing ?now
             "initial_globals\<lparr>devlist_failures := 6\<rparr>" "example_core 4" "[]"] s e
  have "devlist_failures (initial_globals\<lparr>devlist_failures := 0,
                  next_dev_poll_time := \<lparr>tv_sec = 101, tv_usec = 0\<rparr>\<rparr>) = 0"
    by blast
  with seven e show ?thesis by blast
qed

text \<open>
  C4 as stated fails at the fifth failure: five failing fetches in a row after \<open>usb_init\<close>
  all return 0 and reschedule the poll; none returns the error.
\<close>

theorem usb_discover_five_failures_counterexample:
  "usb_discover_calls upstream_usb_h reap_nothing (replicate 5 failing_fetch)
       initial_globals (example_core 4)
     = Some ([0, 0, 0, 0, 0],
             \<lparr>devlist_failures = 5, next_dev_poll_time = \<lparr>tv_sec = 101, tv_usec = 0\<rparr>\<rparr>,
             example_core 4)"
proof -
  have np: "next_poll \<lparr>tv_sec = 100, tv_usec = 0\<rparr> = \<lparr>tv_sec = 101, tv_usec = 0\<rparr>"
    by (simp add: next_poll_def DEVICE_POLL_TIME_def signed_divide_int_def
        signed_modulo_int_def)
  have r5: "replicate 5 failing_fetch
              = [failing_fetch, failing_fetch, failing_fetch, failing_fetch, failing_fetch]"
    by (simp add: eval_nat_numeral)
  show ?thesis
    unfolding r5
    by (simp add: failing_fetch_def initial_globals_def usb_discover_def list_cnt_def Let_def np)
qed

end
